theory Spec2Isabelle
  imports Complex_Main "HOL-Library.AList" "HOL-Library.Sublist"
begin

section \<open>Data model\<close>

text \<open>
  A chat message is \<open>{role, content}\<close>. Message arrays are JavaScript objects that are
  shared by reference: \<open>getMessages\<close> hands out the very array a conversation stores, and
  \<open>create\<close> stores the very array it is given. The model therefore keeps the arrays in an
  explicit heap (\<open>arrays\<close>, addressed by \<open>ref\<close>), and a conversation holds the address of
  its array.
\<close>

datatype role = System | User | Assistant

record chat_message =
  role :: role
  content :: string

datatype json =
    JUndefined | JBool bool | JNumber int | JString string
  | JArray "json list" | JObject "(string \<times> json) list"

type_synonym ref = nat

type_synonym meta = "string \<rightharpoonup> json"

record conversation =
  conv_id :: string
  messages :: ref
  metadata :: "meta option"
  created_at :: int
  updated_at :: int

text \<open>
  The state of the program: the three fields of \<open>ConversationMemoryManager\<close> (the
  \<open>Map\<close> in insertion order, \<open>maxConversations\<close>, \<open>maxAge\<close>) and the heap of
  message arrays with its allocation counter.
\<close>

record world =
  conversations :: "(string \<times> conversation) list"
  maxConversations :: nat
  maxAge :: int
  arrays :: "ref \<Rightarrow> chat_message list"
  next_ref :: ref

section \<open>Arrays and number rendering\<close>

definition new_array :: "chat_message list \<Rightarrow> world \<Rightarrow> ref \<times> world" where
  "new_array init w =
     (next_ref w, w\<lparr>arrays := (arrays w)(next_ref w := init), next_ref := Suc (next_ref w)\<rparr>)"

definition push :: "ref \<Rightarrow> chat_message \<Rightarrow> world \<Rightarrow> world" where
  "push r m w = w\<lparr>arrays := (arrays w)(r := arrays w r @ [m])\<rparr>"

fun show_nat :: "nat \<Rightarrow> string" where
  "show_nat n =
     (if n < 10 then [''0123456789'' ! n]
      else show_nat (n div 10) @ [''0123456789'' ! (n mod 10)])"

declare show_nat.simps [simp del]

definition show_int :: "int \<Rightarrow> string" where
  "show_int i = (if i < 0 then ''-'' @ show_nat (nat (- i)) else show_nat (nat i))"

section \<open>The conversation store (src/utils/memory.ts)\<close>

text \<open>\<open>new ConversationMemoryManager()\<close>; the singleton \<open>conversationMemory\<close> is this value.\<close>

definition ConversationMemoryManager :: world where
  "ConversationMemoryManager =
     \<lparr>conversations = [], maxConversations = 100, maxAge = 24 * 60 * 60 * 1000,
      arrays = (\<lambda>_. []), next_ref = 0\<rparr>"

text \<open>
  \<open>generateId\<close>: \<open>conv_${Date.now()}_${Math.random().toString(36).substring(2, 15)}\<close>.
  The clock reading and the random suffix are inputs.
\<close>

definition generateId :: "int \<Rightarrow> string \<Rightarrow> string" where
  "generateId now rnd = ''conv_'' @ show_int now @ ''_'' @ rnd"

text \<open>The first loop of \<open>cleanup\<close>: walk the snapshot, delete the expired ids from the map.\<close>

fun remove_old :: "int \<Rightarrow> int \<Rightarrow> (string \<times> conversation) list \<Rightarrow>
    (string \<times> conversation) list \<Rightarrow> (string \<times> conversation) list" where
  "remove_old mx now [] m = m"
| "remove_old mx now ((i, conv) # rest) m =
     remove_old mx now rest (if now - updated_at conv > mx then AList.delete i m else m)"

text \<open>The second loop of \<open>cleanup\<close>: delete every id of \<open>toRemove\<close> from the map.\<close>

fun remove_ids :: "(string \<times> conversation) list \<Rightarrow>
    (string \<times> conversation) list \<Rightarrow> (string \<times> conversation) list" where
  "remove_ids [] m = m"
| "remove_ids ((i, conv) # rest) m = remove_ids rest (AList.delete i m)"

text \<open>
  \<open>cleanup\<close>. The snapshot is taken once, before the first loop; the second phase sorts
  that same snapshot (a stable sort by \<open>updated_at\<close>) and slices it by the current size.
\<close>

definition cleanup :: "int \<Rightarrow> world \<Rightarrow> world" where
  "cleanup now w =
     (let snapshot = conversations w;
          m1 = remove_old (maxAge w) now snapshot (conversations w);
          m2 = (if length m1 > maxConversations w then
                  (let sorted = sort_key (\<lambda>(i, conv). updated_at conv) snapshot;
                       toRemove = take (length m1 - maxConversations w) sorted
                   in remove_ids toRemove m1)
                else m1)
      in w\<lparr>conversations := m2\<rparr>)"

text \<open>
  What one \<open>create\<close> call reads from its environment: the clock and the random suffix
  inside \<open>generateId\<close>, \<open>Date.now()\<close> in \<open>create\<close>, \<open>Date.now()\<close> in \<open>cleanup\<close>.
\<close>

record create_reads =
  id_time :: int
  id_random :: string
  create_time :: int
  cleanup_time :: int

text \<open>
  The first half of \<open>create\<close>, up to and including \<open>this.conversations.set(id, ...)\<close>.
  \<open>None\<close> for \<open>initialMessages\<close> is the omitted argument, whose default \<open>[]\<close> is a
  fresh array. \<open>Map.set\<close> on a key already present replaces the value in place.
\<close>

definition register :: "ref option \<Rightarrow> meta option \<Rightarrow> create_reads \<Rightarrow> world \<Rightarrow> world" where
  "register initialMessages md rd w =
     (let new_id = generateId (id_time rd) (id_random rd);
          now = create_time rd;
          (r, w1) = (case initialMessages of None \<Rightarrow> new_array [] w | Some a \<Rightarrow> (a, w))
      in w1\<lparr>conversations :=
              AList.update new_id
                \<lparr>conv_id = new_id, messages = r, metadata = md,
                 created_at = now, updated_at = now\<rparr>
                (conversations w1)\<rparr>)"

definition create :: "ref option \<Rightarrow> meta option \<Rightarrow> create_reads \<Rightarrow> world \<Rightarrow> string \<times> world" where
  "create initialMessages md rd w =
     (generateId (id_time rd) (id_random rd),
      cleanup (cleanup_time rd) (register initialMessages md rd w))"

definition get :: "string \<Rightarrow> world \<Rightarrow> conversation option" where
  "get i w = map_of (conversations w) i"

text \<open>
  \<open>getMessages\<close>: \<open>conversation?.messages || []\<close>. An array is truthy even when empty, so
  a tracked id yields the stored array itself; an untracked id yields a fresh empty array.
\<close>

definition getMessages :: "string \<Rightarrow> world \<Rightarrow> ref \<times> world" where
  "getMessages i w =
     (case map_of (conversations w) i of
        Some conv \<Rightarrow> (messages conv, w)
      | None \<Rightarrow> new_array [] w)"

definition addMessage :: "string \<Rightarrow> chat_message \<Rightarrow> int \<Rightarrow> world \<Rightarrow> world" where
  "addMessage i m now w =
     (case map_of (conversations w) i of
        Some conv \<Rightarrow>
          (let w1 = push (messages conv) m w
           in w1\<lparr>conversations :=
                 AList.map_entry i (\<lambda>c. c\<lparr>updated_at := now\<rparr>) (conversations w1)\<rparr>)
      | None \<Rightarrow> w)"

text \<open>\<open>{...conversation.metadata, ...metadata}\<close>: spreading \<open>undefined\<close> contributes no key.\<close>

definition spread :: "meta option \<Rightarrow> meta" where
  "spread md = (case md of None \<Rightarrow> Map.empty | Some m \<Rightarrow> m)"

definition updateMetadata :: "string \<Rightarrow> meta \<Rightarrow> int \<Rightarrow> world \<Rightarrow> world" where
  "updateMetadata i md now w =
     (case map_of (conversations w) i of
        Some conv \<Rightarrow>
          w\<lparr>conversations :=
              AList.map_entry i
                (\<lambda>c. c\<lparr>metadata := Some (spread (metadata c) ++ md), updated_at := now\<rparr>)
                (conversations w)\<rparr>
      | None \<Rightarrow> w)"

definition delete :: "string \<Rightarrow> world \<Rightarrow> world" where
  "delete i w = w\<lparr>conversations := AList.delete i (conversations w)\<rparr>"

definition size_store :: "world \<Rightarrow> nat" where
  "size_store w = length (conversations w)"

definition clear :: "world \<Rightarrow> world" where
  "clear w = w\<lparr>conversations := []\<rparr>"

text \<open>Calls of the store's public operations, and a sequence of them run in order.\<close>

datatype call =
    Create "ref option" "meta option" create_reads
  | AddMessage string chat_message int
  | UpdateMetadata string meta int
  | Delete string
  | Clear

fun exec :: "call \<Rightarrow> world \<Rightarrow> world" where
  "exec (Create initialMessages md rd) w = snd (create initialMessages md rd w)"
| "exec (AddMessage i m now) w = addMessage i m now w"
| "exec (UpdateMetadata i md now) w = updateMetadata i md now w"
| "exec (Delete i) w = delete i w"
| "exec Clear w = clear w"

fun run :: "call list \<Rightarrow> world \<Rightarrow> world" where
  "run [] w = w"
| "run (c # cs) w = run cs (exec c w)"

definition expired :: "world \<Rightarrow> int \<Rightarrow> conversation \<Rightarrow> bool" where
  "expired w now conv \<longleftrightarrow> now - updated_at conv > maxAge w"

text \<open>The invariant of the store: ids are distinct and the count is within the capacity.\<close>

definition store_ok :: "world \<Rightarrow> bool" where
  "store_ok w \<longleftrightarrow>
     distinct (map fst (conversations w)) \<and> length (conversations w) \<le> maxConversations w"

section \<open>Configuration (src/utils/config.ts)\<close>

text \<open>\<open>process.env\<close>: a variable is unset (\<open>None\<close>) or holds a string.\<close>

type_synonym env = "string \<rightharpoonup> string"

text \<open>\<open>process.env.X || d\<close>: an unset variable and the empty string are both falsy.\<close>

definition env_or :: "string option \<Rightarrow> string \<Rightarrow> string" where
  "env_or v d = (case v of None \<Rightarrow> d | Some s \<Rightarrow> if s = [] then d else s)"

text \<open>
  Strings are sequences of bytes, a character outside ASCII being its UTF-8 encoding. The
  white space that \<open>parseInt\<close> and \<open>trim\<close> skip (WhiteSpace and LineTerminator of
  ECMAScript): TAB, LF, VT, FF, CR, SP, U+00A0, U+1680, U+2000 to U+200A, U+2028, U+2029,
  U+202F, U+205F, U+3000 and U+FEFF.
\<close>

definition white_space :: "string list" where
  "white_space =
     [[CHR 0x09], [CHR 0x0A], [CHR 0x0B], [CHR 0x0C], [CHR 0x0D], [CHR 0x20],
      [CHR 0xC2, CHR 0xA0], [CHR 0xE1, CHR 0x9A, CHR 0x80],
      [CHR 0xE2, CHR 0x80, CHR 0x80], [CHR 0xE2, CHR 0x80, CHR 0x81],
      [CHR 0xE2, CHR 0x80, CHR 0x82], [CHR 0xE2, CHR 0x80, CHR 0x83],
      [CHR 0xE2, CHR 0x80, CHR 0x84], [CHR 0xE2, CHR 0x80, CHR 0x85],
      [CHR 0xE2, CHR 0x80, CHR 0x86], [CHR 0xE2, CHR 0x80, CHR 0x87],
      [CHR 0xE2, CHR 0x80, CHR 0x88], [CHR 0xE2, CHR 0x80, CHR 0x89],
      [CHR 0xE2, CHR 0x80, CHR 0x8A], [CHR 0xE2, CHR 0x80, CHR 0xA8],
      [CHR 0xE2, CHR 0x80, CHR 0xA9], [CHR 0xE2, CHR 0x80, CHR 0xAF],
      [CHR 0xE2, CHR 0x81, CHR 0x9F], [CHR 0xE3, CHR 0x80, CHR 0x80],
      [CHR 0xEF, CHR 0xBB, CHR 0xBF]]"

text \<open>Remove from the front of \<open>s\<close> every leading occurrence of one of the strings \<open>ps\<close>.\<close>

function strip :: "string list \<Rightarrow> string \<Rightarrow> string" where
  "strip ps s =
     (case find (\<lambda>p. prefix p s) ps of
        None \<Rightarrow> s
      | Some p \<Rightarrow> if p = [] then s else strip ps (drop (length p) s))"
  by pat_completeness auto
termination
proof (relation "measure (\<lambda>(ps, s). length s)")
  show "wf (measure (\<lambda>(ps, s). length s))" by simp
next
  fix ps :: "string list" and s p :: string
  assume f: "find (\<lambda>p. prefix p s) ps = Some p" and ne: "p \<noteq> []"
  from f have "prefix p s" by (auto simp: find_Some_iff)
  then have "length p \<le> length s" by (rule prefix_length_le)
  with ne show "((ps, drop (length p) s), (ps, s)) \<in> measure (\<lambda>(ps, s). length s)"
    by (cases p) auto
qed
declare strip.simps [simp del]

definition is_digit :: "char \<Rightarrow> bool" where
  "is_digit c \<longleftrightarrow> c \<in> set ''0123456789''"

definition digit_value :: "char \<Rightarrow> nat" where
  "digit_value c = of_char c - 48"

text \<open>
  A JavaScript number, as far as \<open>parseInt\<close> can return one: \<open>NaN\<close>, an integer that a
  double represents, or an infinity. Negative zero is not told apart from zero.
\<close>

datatype number = NaN | Number int | PosInfinity | NegInfinity

text \<open>
  The double nearest to a natural number, ties to the even significand. Below \<open>2^53\<close>
  every natural number is a double; above, \<open>n\<close> has more than 53 bits and the \<open>s\<close> bits
  below the 53 leading ones are rounded away. \<open>bit_length n\<close> is the number of bits of
  \<open>n\<close>.
\<close>

fun bit_length :: "nat \<Rightarrow> nat" where
  "bit_length n = (if n = 0 then 0 else Suc (bit_length (n div 2)))"
declare bit_length.simps [simp del]

definition nearest_double :: "nat \<Rightarrow> nat" where
  "nearest_double n =
     (if n < 2 ^ 53 then n
      else (let s = bit_length n - 53;
                q = n div 2 ^ s;
                r = n mod 2 ^ s;
                h = 2 ^ (s - 1)
            in (if r > h \<or> (r = h \<and> odd q) then q + 1 else q) * 2 ^ s))"

text \<open>The number value of a signed natural: what rounds to \<open>2^1024\<close> or more is infinite.\<close>

definition to_number :: "bool \<Rightarrow> nat \<Rightarrow> number" where
  "to_number negative n =
     (let v = nearest_double n in
      if v \<ge> 2 ^ 1024 then (if negative then NegInfinity else PosInfinity)
      else Number (if negative then - int v else int v))"

text \<open>
  \<open>parseInt(s, 10)\<close>: skip leading white space, read an optional sign, read the longest
  run of decimal digits; \<open>NaN\<close> when there is no digit, else the number value of the
  integer read (all of its digits are used).
\<close>

definition parseInt :: "string \<Rightarrow> number" where
  "parseInt s =
     (let t = strip white_space s;
          (negative, r) =
            (case t of
               [] \<Rightarrow> (False, [])
             | c # cs \<Rightarrow>
                 if c = CHR ''-'' then (True, cs)
                 else if c = CHR ''+'' then (False, cs)
                 else (False, t));
          ds = takeWhile is_digit r;
          n = foldl (\<lambda>acc d. 10 * acc + digit_value d) 0 ds
      in if ds = [] then NaN else to_number negative n)"

text \<open>\<open>s.split(",")\<close>, \<open>s.trim()\<close> and \<open>xs.join(sep)\<close>.\<close>

fun split :: "char \<Rightarrow> string \<Rightarrow> string list" where
  "split c [] = [[]]"
| "split c (x # xs) =
     (if x = c then [] # split c xs
      else (case split c xs of [] \<Rightarrow> [[x]] | y # ys \<Rightarrow> (x # y) # ys))"

definition trim :: "string \<Rightarrow> string" where
  "trim s = rev (strip (map rev white_space) (rev (strip white_space s)))"

fun join :: "string \<Rightarrow> string list \<Rightarrow> string" where
  "join sep [] = []"
| "join sep [x] = x"
| "join sep (x # y # ys) = x @ sep @ join sep (y # ys)"

record config =
  ollamaBaseUrl :: string
  defaultModel :: string
  disabledTools :: "string set"
  config_maxConversations :: number
  version :: string

definition loadConfig :: "env \<Rightarrow> config" where
  "loadConfig e =
     \<lparr>ollamaBaseUrl = env_or (e ''OLLAMA_BASE_URL'') ''http://localhost:11434'',
      defaultModel = env_or (e ''DEFAULT_MODEL'') ''qwen2.5:latest'',
      disabledTools =
        set (filter (\<lambda>s. s \<noteq> []) (map trim (split CHR '','' (env_or (e ''DISABLED_TOOLS'') [])))),
      config_maxConversations = parseInt (env_or (e ''MAX_CONVERSATIONS'') ''100''),
      version = ''0.1.0''\<rparr>"

text \<open>
  Process start. The two module-level singletons are initialised independently:
  \<open>export const config = loadConfig()\<close> and
  \<open>export const conversationMemory = new ConversationMemoryManager()\<close>; the constructor
  takes no argument, and the tools import \<open>conversationMemory\<close>.
\<close>

definition startup :: "env \<Rightarrow> config \<times> world" where
  "startup e = (loadConfig e, ConversationMemoryManager)"

section \<open>The tools\<close>

subsection \<open>The backend and what a tool call reads and returns\<close>

text \<open>
  \<open>ollama.chat(request)\<close> either returns a response, of which the tools use the
  \<open>message\<close>, or throws; the tools do not catch, so \<open>execute\<close> rejects with that error.
  The backend is a parameter of every \<open>execute\<close>. The request carries the contents the
  \<open>messages\<close> array has at the moment of the call.
\<close>

datatype error = BackendError string

record chat_request =
  req_model :: string
  req_messages :: "chat_message list"
  req_temperature :: "real option"

type_synonym backend = "chat_request \<Rightarrow> error + chat_message"

text \<open>
  The environment readings of one tool call: those of the \<open>create\<close> call it may make, and
  \<open>Date.now()\<close> in the two \<open>addMessage\<close> calls.
\<close>

record tool_reads =
  new_conv :: create_reads
  user_time :: int
  reply_time :: int

text \<open>
  What a call does: its result (the response text, or the error it rejects with), the one
  request it sent to the backend, and the state it leaves.
\<close>

record outcome =
  result :: "error + string"
  request :: chat_request
  after :: world

text \<open>JavaScript truthiness of an optional string and of an optional number.\<close>

definition truthy :: "string option \<Rightarrow> bool" where
  "truthy s = (case s of None \<Rightarrow> False | Some t \<Rightarrow> t \<noteq> [])"

definition truthy_num :: "nat option \<Rightarrow> bool" where
  "truthy_num n = (case n of None \<Rightarrow> False | Some k \<Rightarrow> k \<noteq> 0)"

text \<open>A destructuring default, \<open>x = d\<close>, and \<open>${x}\<close> for an optional string or number.\<close>

definition or_default :: "'a \<Rightarrow> 'a option \<Rightarrow> 'a" where
  "or_default d x = (case x of None \<Rightarrow> d | Some v \<Rightarrow> v)"

definition show_opt :: "string option \<Rightarrow> string" where
  "show_opt s = (case s of None \<Rightarrow> ''undefined'' | Some t \<Rightarrow> t)"

definition show_opt_nat :: "nat option \<Rightarrow> string" where
  "show_opt_nat n = (case n of None \<Rightarrow> ''undefined'' | Some k \<Rightarrow> show_nat k)"

definition json_opt :: "string option \<Rightarrow> json" where
  "json_opt s = (case s of None \<Rightarrow> JUndefined | Some t \<Rightarrow> JString t)"

text \<open>
  The inputs. The schemas live in src/types/index.ts; the fields are those the
  \<open>execute\<close> functions destructure, optional ones as options, with the fields the tools
  have in common in two base records. Step counters and indices are naturals. Fields that no
  modelled line reads (\<open>images\<close>) are left out.
\<close>

record tool_input =
  model :: string
  continuation_id :: "string option"

record step_input = tool_input +
  step :: string
  step_number :: nat
  total_steps :: nat
  next_step_required :: bool
  findings :: string

subsection \<open>Conversation resolution of the step-based tools\<close>

text \<open>
  The block \<open>// Get or create conversation\<close> stands verbatim in every step-based tool
  (planner.ts 33-51, debug.ts 37-57, and the thinkdeep, consensus, codereview and precommit
  tools), with only the metadata object differing. It returns the local \<open>messages\<close> array
  and \<open>convId\<close>. With a truthy token, \<open>messages\<close> is the array \<open>getMessages\<close> returned:
  for a tracked id that is the stored array itself, not a copy. \<open>start_conversation\<close> is
  the statement \<open>convId = conversationMemory.create([], {...})\<close>; the \<open>None\<close> case under a
  truthy token cannot occur. The local variable \<open>messages\<close> is written \<open>msgs\<close>.
\<close>

definition start_conversation :: "meta \<Rightarrow> create_reads \<Rightarrow> ref \<Rightarrow> world \<Rightarrow> ref \<times> string \<times> world" where
  "start_conversation md rd msgs w =
     (let (a, w1) = new_array [] w;
          (convId, w2) = create (Some a) (Some md) rd w1
      in (msgs, convId, w2))"

definition resolve_conversation ::
    "string option \<Rightarrow> meta \<Rightarrow> create_reads \<Rightarrow> world \<Rightarrow> ref \<times> string \<times> world" where
  "resolve_conversation cont md rd w0 =
     (let (local, w1) = new_array [] w0 in
      if truthy cont then
        (case cont of
           None \<Rightarrow> start_conversation md rd local w1
         | Some token \<Rightarrow>
             (let (msgs, w2) = getMessages token w1 in
              if length (arrays w2 msgs) = 0 then start_conversation md rd msgs w2
              else (msgs, token, w2)))
      else start_conversation md rd local w1)"

text \<open>
  The tail every tool shares: push the user message on the local array, record it in the
  store, call the backend, record the reply, and hand the reply to the tool's trailer.
\<close>

definition send_and_store ::
    "ref \<Rightarrow> string \<Rightarrow> string \<Rightarrow> string \<Rightarrow> real option \<Rightarrow> tool_reads \<Rightarrow> backend \<Rightarrow>
     (string \<Rightarrow> string) \<Rightarrow> world \<Rightarrow> outcome" where
  "send_and_store msgs convId body model_to_use temp rd chat trailer w0 =
     (let userMessage = \<lparr>role = User, content = body\<rparr>;
          w1 = push msgs userMessage w0;
          w2 = addMessage convId userMessage (user_time rd) w1;
          req = \<lparr>req_model = model_to_use, req_messages = arrays w2 msgs,
                 req_temperature = temp\<rparr>
      in case chat req of
           Inl e \<Rightarrow> \<lparr>result = Inl e, request = req, after = w2\<rparr>
         | Inr reply \<Rightarrow>
             \<lparr>result = Inr (content reply @ trailer convId), request = req,
              after = addMessage convId reply (reply_time rd) w2\<rparr>)"


subsection \<open>planner (src/tools/planner.ts)\<close>

record planner_input = step_input +
  is_step_revision :: "bool option"
  revises_step_number :: "nat option"
  is_branch_point :: "bool option"
  branch_id :: "string option"
  branch_from_step :: "nat option"

definition planner_prompt :: "planner_input \<Rightarrow> string" where
  "planner_prompt inp =
     ''# Planning Session - Step '' @ show_nat (step_number inp) @ ''/'' @
        show_nat (total_steps inp) @ ''\<newline>\<newline>'' @
     (if step_number inp = 1 then
        ''## Project/Task Overview\<newline>\<newline>'' @ step inp @ ''\<newline>\<newline>'' @
        ''### Planning Approach\<newline>'' @
        ''Please provide an initial plan covering:\<newline>'' @
        ''- High-level goals and objectives\<newline>'' @
        ''- Key phases or milestones\<newline>'' @
        ''- Major components or tasks\<newline>'' @
        ''- Dependencies and constraints\<newline>'' @
        ''- Potential challenges\<newline>\<newline>''
      else if or_default False (is_step_revision inp) \<and> truthy_num (revises_step_number inp) then
        ''## Plan Revision\<newline>\<newline>'' @
        ''Revising step '' @ show_opt_nat (revises_step_number inp) @ '':\<newline>\<newline>'' @
          step inp @ ''\<newline>\<newline>'' @
        ''### Revision Analysis\<newline>'' @
        ''Provide updated analysis addressing:\<newline>'' @
        ''- What changed and why\<newline>'' @
        ''- Impact on subsequent steps\<newline>'' @
        ''- Updated approach or recommendations\<newline>\<newline>''
      else if or_default False (is_branch_point inp) \<and> truthy (branch_id inp) \<and>
              truthy_num (branch_from_step inp) then
        ''## Alternative Approach - Branch: '' @ show_opt (branch_id inp) @ ''\<newline>\<newline>'' @
        ''Branching from step '' @ show_opt_nat (branch_from_step inp) @ '':\<newline>\<newline>'' @
          step inp @ ''\<newline>\<newline>'' @
        ''### Branch Exploration\<newline>'' @
        ''Explore this alternative by:\<newline>'' @
        ''- Describing the different approach\<newline>'' @
        ''- Comparing with the main path\<newline>'' @
        ''- Identifying unique benefits/risks\<newline>'' @
        ''- Providing recommendations\<newline>\<newline>''
      else
        ''## Detailed Planning\<newline>\<newline>'' @ step inp @ ''\<newline>\<newline>'' @
        ''### Step '' @ show_nat (step_number inp) @ '' Analysis\<newline>'' @
        ''Continue planning by:\<newline>'' @
        ''- Breaking down this phase\<newline>'' @
        ''- Identifying specific tasks\<newline>'' @
        ''- Noting dependencies\<newline>'' @
        ''- Highlighting risks or concerns\<newline>\<newline>'') @
     (if next_step_required inp then
        ''### Next Planning Phase\<newline>'' @
        ''Prepare for step '' @ show_nat (step_number inp + 1) @ '' by identifying:\<newline>'' @
        ''- What needs further breakdown\<newline>'' @
        ''- Areas requiring more detail\<newline>'' @
        ''- Open questions to address\<newline>''
      else
        ''### Final Plan Summary\<newline>'' @
        ''Provide a comprehensive plan summary including:\<newline>'' @
        ''- Complete task breakdown\<newline>'' @
        ''- Execution sequence\<newline>'' @
        ''- Resource requirements\<newline>'' @
        ''- Success criteria\<newline>'' @
        ''- Risk mitigation strategies\<newline>'')"

definition planner_trailer :: "planner_input \<Rightarrow> string \<Rightarrow> string" where
  "planner_trailer inp convId =
     ''\<newline>\<newline>---\<newline>'' @
     ''**Planning Session Info**\<newline>'' @
     ''- Step: '' @ show_nat (step_number inp) @ ''/'' @ show_nat (total_steps inp) @ ''\<newline>'' @
     (if or_default False (is_step_revision inp) \<and> truthy_num (revises_step_number inp) then
        ''- Revision of step: '' @ show_opt_nat (revises_step_number inp) @ ''\<newline>''
      else []) @
     (if or_default False (is_branch_point inp) \<and> truthy (branch_id inp) then
        ''- Branch: '' @ show_opt (branch_id inp) @ '' (from step '' @
          show_opt_nat (branch_from_step inp) @ '')\<newline>''
      else []) @
     ''- Continuation ID: '' @ convId @ ''\<newline>'' @
     ''- Next step required: '' @ (if next_step_required inp then ''Yes'' else ''No'') @ ''\<newline>''"

definition planner_metadata :: "planner_input \<Rightarrow> meta" where
  "planner_metadata inp = [''tool'' \<mapsto> JString ''planner'', ''model'' \<mapsto> JString (model inp)]"

definition planner_system :: chat_message where
  "planner_system =
     \<lparr>role = System,
      content = ''You are an expert project planner. Provide structured, actionable plans with clear breakdown of tasks, dependencies, and considerations.''\<rparr>"

definition planner_execute :: "planner_input \<Rightarrow> tool_reads \<Rightarrow> backend \<Rightarrow> world \<Rightarrow> outcome" where
  "planner_execute inp rd chat w0 =
     (let (msgs, convId, w1) =
            resolve_conversation (continuation_id inp) (planner_metadata inp) (new_conv rd) w0;
          body = planner_prompt inp;
          w2 = (if length (arrays w1 msgs) = 0 then push msgs planner_system w1 else w1)
      in send_and_store msgs convId body (model inp) (Some 0.6) rd chat
           (planner_trailer inp) w2)"

subsection \<open>debug (src/tools/debug.ts)\<close>

record debug_input = step_input +
  files_checked :: "string list option"
  relevant_files :: "string list option"
  relevant_context :: "string list option"
  hypothesis :: "string option"
  confidence :: "string option"
  backtrack_from_step :: "nat option"
  thinking_mode :: "string option"

definition bullets :: "string list \<Rightarrow> string" where
  "bullets xs = join ''\<newline>'' (map (\<lambda>f. ''- '' @ f) xs)"

definition debug_prompt :: "debug_input \<Rightarrow> string" where
  "debug_prompt inp =
     ''# Debug Investigation - Step '' @ show_nat (step_number inp) @ ''/'' @
        show_nat (total_steps inp) @ ''\<newline>\<newline>'' @
     (if step_number inp = 1 then
        ''## Initial Investigation\<newline>\<newline>'' @ step inp @ ''\<newline>\<newline>''
      else
        ''## Step '' @ show_nat (step_number inp) @ ''\<newline>\<newline>'' @ step inp @ ''\<newline>\<newline>'') @
     ''### Current Findings\<newline>'' @ findings inp @ ''\<newline>\<newline>'' @
     (if truthy (hypothesis inp) then
        ''### Hypothesis\<newline>'' @ show_opt (hypothesis inp) @ ''\<newline>\<newline>'' @
        (if truthy (confidence inp) then
           ''**Confidence Level**: '' @ show_opt (confidence inp) @ ''\<newline>\<newline>''
         else [])
      else []) @
     (if length (or_default [] (files_checked inp)) > 0 then
        ''### Files Examined\<newline>'' @ bullets (or_default [] (files_checked inp)) @ ''\<newline>\<newline>''
      else []) @
     (if length (or_default [] (relevant_files inp)) > 0 then
        ''### Relevant Files\<newline>'' @ bullets (or_default [] (relevant_files inp)) @ ''\<newline>\<newline>''
      else []) @
     (if length (or_default [] (relevant_context inp)) > 0 then
        ''### Relevant Context\<newline>'' @ bullets (or_default [] (relevant_context inp)) @ ''\<newline>\<newline>''
      else []) @
     (if truthy_num (backtrack_from_step inp) then
        ''### Note\<newline>Backtracking from step '' @ show_opt_nat (backtrack_from_step inp) @
        '' to revise analysis.\<newline>\<newline>''
      else []) @
     ''### Next Steps\<newline>'' @
     (if next_step_required inp then
        ''Continue investigation with step '' @ show_nat (step_number inp + 1) @ ''. '' @
        ''Provide guidance on:\<newline>'' @
        ''- What to investigate next\<newline>'' @
        ''- Which files or code paths to examine\<newline>'' @
        ''- What evidence to look for\<newline>'' @
        ''- How to test the current hypothesis\<newline>''
      else
        ''This is the final step. Provide:\<newline>'' @
        ''- Summary of root cause analysis\<newline>'' @
        ''- Concrete solution or fix recommendations\<newline>'' @
        ''- Prevention strategies for similar issues\<newline>'')"

definition debug_trailer :: "debug_input \<Rightarrow> string \<Rightarrow> string" where
  "debug_trailer inp convId =
     ''\<newline>\<newline>---\<newline>'' @
     ''**Debug Session Info**\<newline>'' @
     ''- Step: '' @ show_nat (step_number inp) @ ''/'' @ show_nat (total_steps inp) @ ''\<newline>'' @
     ''- Continuation ID: '' @ convId @ ''\<newline>'' @
     (if truthy (hypothesis inp) then
        ''- Current Hypothesis: '' @ show_opt (hypothesis inp) @ ''\<newline>''
      else []) @
     (if truthy (confidence inp) then
        ''- Confidence: '' @ show_opt (confidence inp) @ ''\<newline>''
      else []) @
     ''- Next step required: '' @ (if next_step_required inp then ''Yes'' else ''No'') @ ''\<newline>''"

definition debug_metadata :: "debug_input \<Rightarrow> meta" where
  "debug_metadata inp =
     [''tool'' \<mapsto> JString ''debug'', ''model'' \<mapsto> JString (model inp),
      ''thinking_mode'' \<mapsto> json_opt (thinking_mode inp)]"

definition debug_system :: "debug_input \<Rightarrow> chat_message" where
  "debug_system inp =
     \<lparr>role = System,
      content = ''You are a debugging expert operating in '' @ show_opt (thinking_mode inp) @
        '' thinking mode. Provide systematic analysis with appropriate depth for this mode.''\<rparr>"

definition debug_execute :: "debug_input \<Rightarrow> tool_reads \<Rightarrow> backend \<Rightarrow> world \<Rightarrow> outcome" where
  "debug_execute inp rd chat w0 =
     (let (msgs, convId, w1) =
            resolve_conversation (continuation_id inp) (debug_metadata inp) (new_conv rd) w0;
          body = debug_prompt inp;
          w2 = (if length (arrays w1 msgs) = 0 \<and> truthy (thinking_mode inp) then
                  push msgs (debug_system inp) w1
                else w1)
      in send_and_store msgs convId body (model inp) (Some 0.7) rd chat
           (debug_trailer inp) w2)"

subsection \<open>consensus (src/tools/consensus.ts)\<close>

record model_config =
  config_model :: string
  stance :: "string option"
  stance_prompt :: "string option"

record model_response =
  response_model :: string
  response_stance :: string
  summary :: string

record consensus_input = step_input +
  models :: "model_config list"
  current_model_index :: "nat option"
  model_responses :: "model_response list option"
  consensus_relevant_files :: "string list option"

text \<open>\<open>currentModelConfig?.stance || "neutral"\<close>.\<close>

definition stance_or_neutral :: "model_config \<Rightarrow> string" where
  "stance_or_neutral c = (if truthy (stance c) then show_opt (stance c) else ''neutral'')"

definition consensus_prompt :: "consensus_input \<Rightarrow> string" where
  "consensus_prompt inp =
     (let modelConfigs = models inp;
          idx = or_default 0 (current_model_index inp);
          responses = or_default [] (model_responses inp);
          fs = or_default [] (consensus_relevant_files inp)
      in
      ''# Multi-Model Consensus - Step '' @ show_nat (step_number inp) @ ''/'' @
         show_nat (total_steps inp) @ ''\<newline>\<newline>'' @
      (if step_number inp = 1 then
         ''## Proposal/Question\<newline>\<newline>'' @ step inp @ ''\<newline>\<newline>'' @
         ''### Models to Consult\<newline>'' @
         concat (map (\<lambda>c. ''- '' @ config_model c @
                        (if truthy (stance c) then '' (stance: '' @ show_opt (stance c) @ '')''
                         else []) @ ''\<newline>'') modelConfigs) @
         ''\<newline>### Your Initial Analysis\<newline>'' @
         ''Before consulting other models, provide your own analysis:\<newline>'' @
         ''- Key considerations\<newline>'' @
         ''- Potential approaches\<newline>'' @
         ''- Important factors to evaluate\<newline>\<newline>'' @
         ''**Your Findings**: '' @ findings inp @ ''\<newline>''
       else if idx < length modelConfigs then
         (let currentModelConfig = modelConfigs ! idx;
              modelName = (if config_model currentModelConfig \<noteq> []
                           then config_model currentModelConfig else ''unknown'');
              st = stance_or_neutral currentModelConfig;
              stancePrompt = stance_prompt currentModelConfig
          in
          ''## Consulting Model: '' @ modelName @ ''\<newline>\<newline>'' @
          ''**Stance**: '' @ st @ ''\<newline>\<newline>'' @
          ''**Question/Proposal**: '' @ step inp @ ''\<newline>\<newline>'' @
          (if truthy stancePrompt then
             ''**Perspective**: '' @ show_opt stancePrompt @ ''\<newline>\<newline>''
           else if st = ''for'' then
             ''**Perspective**: Evaluate this from a supportive perspective, highlighting benefits and opportunities.\<newline>\<newline>''
           else if st = ''against'' then
             ''**Perspective**: Evaluate this critically, identifying risks, challenges, and drawbacks.\<newline>\<newline>''
           else
             ''**Perspective**: Provide a balanced, objective analysis.\<newline>\<newline>'') @
          (if length fs > 0 then
             ''**Context Files**:\<newline>'' @ bullets fs @ ''\<newline>\<newline>''
           else []) @
          (if length responses > 0 then
             ''### Previous Perspectives\<newline>'' @
             concat (map (\<lambda>resp. ''**'' @ response_model resp @ ''** ('' @ response_stance resp @
                            ''): '' @ summary resp @ ''\<newline>\<newline>'') responses)
           else []) @
          ''Provide this model's perspective focusing on:\<newline>'' @
          ''- Key arguments from the '' @ st @ '' stance\<newline>'' @
          ''- Supporting evidence or reasoning\<newline>'' @
          ''- Important considerations\<newline>\<newline>'' @
          ''**Latest Findings**: '' @ findings inp @ ''\<newline>'')
       else
         ''## Consensus Synthesis\<newline>\<newline>'' @
         ''**Original Question**: '' @ step inp @ ''\<newline>\<newline>'' @
         ''### All Perspectives Gathered\<newline>'' @
         concat (map (\<lambda>resp. ''\<newline>**'' @ response_model resp @ ''** ('' @ response_stance resp @
                        ''):\<newline>'' @ summary resp @ ''\<newline>'') responses) @
         ''\<newline>### Your Final Synthesis\<newline>'' @
         ''Based on all perspectives, provide:\<newline>'' @
         ''- Areas of agreement across models\<newline>'' @
         ''- Key points of disagreement\<newline>'' @
         ''- Balanced recommendation\<newline>'' @
         ''- Action items or next steps\<newline>\<newline>'' @
         ''**Synthesis**: '' @ findings inp @ ''\<newline>''))"

text \<open>
  \<open>// Determine which model to use\<close>. In the second branch the index is below the length,
  so the element exists; \<open>?.model || "qwen2.5:latest"\<close> then falls back on an empty
  model string.
\<close>

definition modelToUse :: "consensus_input \<Rightarrow> string" where
  "modelToUse inp =
     (let modelConfigs = models inp;
          idx = or_default 0 (current_model_index inp)
      in if step_number inp = 1 \<or> idx \<ge> length modelConfigs then ''qwen2.5:latest''
         else if config_model (modelConfigs ! idx) \<noteq> [] then config_model (modelConfigs ! idx)
         else ''qwen2.5:latest'')"

definition consensus_trailer :: "consensus_input \<Rightarrow> string \<Rightarrow> string" where
  "consensus_trailer inp convId =
     (let modelConfigs = models inp;
          idx = or_default 0 (current_model_index inp)
      in
      ''\<newline>\<newline>---\<newline>'' @
      ''**Consensus Session Info**\<newline>'' @
      ''- Step: '' @ show_nat (step_number inp) @ ''/'' @ show_nat (total_steps inp) @ ''\<newline>'' @
      (if idx < length modelConfigs then
         ''- Current Model: '' @ config_model (modelConfigs ! idx) @ '' ('' @
            stance_or_neutral (modelConfigs ! idx) @ '')\<newline>'' @
         ''- Progress: '' @ show_nat (idx + 1) @ ''/'' @ show_nat (length modelConfigs) @
            '' models consulted\<newline>''
       else ''- Phase: Final synthesis\<newline>'') @
      ''- Continuation ID: '' @ convId @ ''\<newline>'' @
      ''- Next step required: '' @ (if next_step_required inp then ''Yes'' else ''No'') @ ''\<newline>'')"

definition config_json :: "model_config \<Rightarrow> json" where
  "config_json c =
     JObject ([(''model'', JString (config_model c))] @
              (case stance c of None \<Rightarrow> [] | Some s \<Rightarrow> [(''stance'', JString s)]) @
              (case stance_prompt c of None \<Rightarrow> [] | Some s \<Rightarrow> [(''stance_prompt'', JString s)]))"

definition consensus_metadata :: "consensus_input \<Rightarrow> meta" where
  "consensus_metadata inp =
     [''tool'' \<mapsto> JString ''consensus'', ''models'' \<mapsto> JArray (map config_json (models inp))]"

definition consensus_system :: chat_message where
  "consensus_system =
     \<lparr>role = System,
      content = ''You are facilitating a multi-model consensus process. Provide structured, evidence-based analysis and help synthesize diverse perspectives.''\<rparr>"

definition consensus_execute :: "consensus_input \<Rightarrow> tool_reads \<Rightarrow> backend \<Rightarrow> world \<Rightarrow> outcome" where
  "consensus_execute inp rd chat w0 =
     (let (msgs, convId, w1) =
            resolve_conversation (continuation_id inp) (consensus_metadata inp) (new_conv rd) w0;
          body = consensus_prompt inp;
          w2 = (if length (arrays w1 msgs) = 0 then push msgs consensus_system w1 else w1)
      in send_and_store msgs convId body (modelToUse inp) (Some 0.7) rd chat
           (consensus_trailer inp) w2)"

subsection \<open>thinkdeep (src/tools/thinkdeep.ts)\<close>

text \<open>
  The thinking mode is one of the five keys of the table \<open>thinkingInstructions\<close>;
  \<open>thinking_name\<close> is the string it is written as.
\<close>

datatype thinking = ThinkMinimal | ThinkLow | ThinkMedium | ThinkHigh | ThinkMax

fun thinking_name :: "thinking \<Rightarrow> string" where
  "thinking_name ThinkMinimal = ''minimal''"
| "thinking_name ThinkLow = ''low''"
| "thinking_name ThinkMedium = ''medium''"
| "thinking_name ThinkHigh = ''high''"
| "thinking_name ThinkMax = ''max''"

fun thinkingInstructions :: "thinking \<Rightarrow> string" where
  "thinkingInstructions ThinkMinimal =
     ''Provide quick, focused analysis without extensive exploration.''"
| "thinkingInstructions ThinkLow = ''Basic reasoning with key considerations.''"
| "thinkingInstructions ThinkMedium =
     ''Moderate analysis covering main perspectives and implications.''"
| "thinkingInstructions ThinkHigh =
     ''Deep analysis with multiple perspectives, edge cases, and implications.''"
| "thinkingInstructions ThinkMax =
     ''Comprehensive reasoning with extensive exploration of all angles, trade-offs, and long-term consequences.''"

record thinkdeep_input = step_input +
  thinkdeep_thinking_mode :: "thinking option"

text \<open>The destructuring default \<open>thinking_mode = "high"\<close>.\<close>

definition thinkdeep_mode :: "thinkdeep_input \<Rightarrow> thinking" where
  "thinkdeep_mode inp = or_default ThinkHigh (thinkdeep_thinking_mode inp)"

definition thinkdeep_prompt :: "thinkdeep_input \<Rightarrow> string" where
  "thinkdeep_prompt inp =
     ''# Deep Thinking Session - Step '' @ show_nat (step_number inp) @ ''/'' @
        show_nat (total_steps inp) @ ''\<newline>\<newline>'' @
     (if step_number inp = 1 then
        ''## Problem/Question\<newline>\<newline>'' @ step inp @ ''\<newline>\<newline>'' @
        ''### Analysis Approach\<newline>'' @
        ''**Thinking Mode**: '' @ thinking_name (thinkdeep_mode inp) @ '' - '' @
          thinkingInstructions (thinkdeep_mode inp) @ ''\<newline>\<newline>'' @
        ''Please provide an initial analysis considering:\<newline>'' @
        ''- Core problem or question\<newline>'' @
        ''- Key factors and constraints\<newline>'' @
        ''- Potential approaches or angles to explore\<newline>'' @
        ''- What needs deeper investigation\<newline>\<newline>''
      else
        ''## Continued Analysis\<newline>\<newline>'' @ step inp @ ''\<newline>\<newline>'') @
     ''### Current Findings\<newline>'' @ findings inp @ ''\<newline>\<newline>'' @
     (if next_step_required inp then
        ''### Next Phase\<newline>'' @
        ''This is an intermediate step. Continue the analysis by:\<newline>'' @
        ''- Building on previous findings\<newline>'' @
        ''- Exploring additional perspectives\<newline>'' @
        ''- Identifying gaps or uncertainties\<newline>'' @
        ''- Refining understanding\<newline>''
      else
        ''### Final Synthesis\<newline>'' @
        ''This is the final step. Provide:\<newline>'' @
        ''- Comprehensive synthesis of all findings\<newline>'' @
        ''- Clear conclusions or recommendations\<newline>'' @
        ''- Trade-offs and considerations\<newline>'' @
        ''- Action items or next steps\<newline>'')"

definition thinkdeep_trailer :: "thinkdeep_input \<Rightarrow> string \<Rightarrow> string" where
  "thinkdeep_trailer inp convId =
     ''\<newline>\<newline>---\<newline>'' @
     ''**Deep Thinking Session Info**\<newline>'' @
     ''- Step: '' @ show_nat (step_number inp) @ ''/'' @ show_nat (total_steps inp) @ ''\<newline>'' @
     ''- Thinking Mode: '' @ thinking_name (thinkdeep_mode inp) @ ''\<newline>'' @
     ''- Continuation ID: '' @ convId @ ''\<newline>'' @
     ''- Next step required: '' @ (if next_step_required inp then ''Yes'' else ''No'') @ ''\<newline>''"

definition thinkdeep_metadata :: "thinkdeep_input \<Rightarrow> meta" where
  "thinkdeep_metadata inp =
     [''tool'' \<mapsto> JString ''thinkdeep'', ''model'' \<mapsto> JString (model inp),
      ''thinking_mode'' \<mapsto> JString (thinking_name (thinkdeep_mode inp))]"

definition thinkdeep_system :: "thinkdeep_input \<Rightarrow> chat_message" where
  "thinkdeep_system inp =
     \<lparr>role = System,
      content = ''You are an expert analytical thinker operating in '' @
        thinking_name (thinkdeep_mode inp) @ '' mode. '' @
        thinkingInstructions (thinkdeep_mode inp) @
        '' Provide structured, evidence-based reasoning.''\<rparr>"

definition thinkdeep_temperature :: "thinkdeep_input \<Rightarrow> real" where
  "thinkdeep_temperature inp =
     (if thinkdeep_mode inp = ThinkMinimal then 0.3
      else if thinkdeep_mode inp = ThinkMax then 0.8
      else 0.6)"

definition thinkdeep_execute :: "thinkdeep_input \<Rightarrow> tool_reads \<Rightarrow> backend \<Rightarrow> world \<Rightarrow> outcome" where
  "thinkdeep_execute inp rd chat w0 =
     (let (msgs, convId, w1) =
            resolve_conversation (continuation_id inp) (thinkdeep_metadata inp) (new_conv rd) w0;
          body = thinkdeep_prompt inp;
          w2 = (if length (arrays w1 msgs) = 0 then push msgs (thinkdeep_system inp) w1 else w1)
      in send_and_store msgs convId body (model inp) (Some (thinkdeep_temperature inp)) rd chat
           (thinkdeep_trailer inp) w2)"

subsection \<open>Issues, as codereview and precommit list them\<close>

text \<open>
  An issue has a severity, a description and optionally a file (the field \<open>file\<close>, here
  \<open>issue_file\<close>); an issue of a code review has optionally a line as well, a natural number. Both tools group the issues by severity
  in the order of the keys of \<open>groupedIssues\<close>, print a heading \<open>severity.toUpperCase()\<close>
  for every group that is not empty and one line for each of its issues; only the location
  printed after the description differs.
\<close>

datatype severity = Critical | High | Medium | Low

fun severity_upper :: "severity \<Rightarrow> string" where
  "severity_upper Critical = ''CRITICAL''"
| "severity_upper High = ''HIGH''"
| "severity_upper Medium = ''MEDIUM''"
| "severity_upper Low = ''LOW''"

record issue =
  severity :: severity
  description :: string
  issue_file :: "string option"

record review_issue = issue +
  line :: "nat option"

definition issues_identified :: "('a issue_scheme \<Rightarrow> string) \<Rightarrow> 'a issue_scheme list \<Rightarrow> string" where
  "issues_identified location issues_found =
     ''### Issues Identified\<newline>'' @
     concat (map (\<lambda>s.
        (let issues = filter (\<lambda>i. severity i = s) issues_found in
         if length issues > 0 then
           ''\<newline>**'' @ severity_upper s @ ''** ('' @ show_nat (length issues) @ ''):\<newline>'' @
           concat (map (\<lambda>i. ''- '' @ description i @ location i @ ''\<newline>'') issues)
         else []))
        [Critical, High, Medium, Low]) @
     ''\<newline>''"

subsection \<open>codereview (src/tools/codereview.ts)\<close>

datatype review_type = Full | Security | Performance | Quick

fun review_name :: "review_type \<Rightarrow> string" where
  "review_name Full = ''full''"
| "review_name Security = ''security''"
| "review_name Performance = ''performance''"
| "review_name Quick = ''quick''"

fun reviewFocus :: "review_type \<Rightarrow> string" where
  "reviewFocus Full = ''quality, security, performance, and architecture''"
| "reviewFocus Security = ''security vulnerabilities and best practices''"
| "reviewFocus Performance = ''performance bottlenecks and optimization opportunities''"
| "reviewFocus Quick = ''critical issues and code quality basics''"

record codereview_input = step_input +
  review_files_checked :: "string list option"
  review_relevant_files :: "string list option"
  review_issues_found :: "review_issue list option"
  review_type :: "review_type option"

text \<open>The destructuring default \<open>review_type = "full"\<close>.\<close>

definition review_kind :: "codereview_input \<Rightarrow> review_type" where
  "review_kind inp = or_default Full (review_type inp)"

definition review_location :: "review_issue \<Rightarrow> string" where
  "review_location i =
     (if truthy (issue_file i) then
        '' ['' @ show_opt (issue_file i) @
        (if truthy_num (line i) then '':'' @ show_opt_nat (line i) else []) @ '']''
      else [])"

definition codereview_prompt :: "codereview_input \<Rightarrow> string" where
  "codereview_prompt inp =
     ''# Code Review - Step '' @ show_nat (step_number inp) @ ''/'' @
        show_nat (total_steps inp) @ ''\<newline>\<newline>'' @
     ''**Review Type**: '' @ review_name (review_kind inp) @ ''\<newline>\<newline>'' @
     (if step_number inp = 1 then
        ''## Review Strategy\<newline>\<newline>'' @ step inp @ ''\<newline>\<newline>'' @
        ''Focus areas: '' @ reviewFocus (review_kind inp) @ ''\<newline>\<newline>''
      else
        ''## Review Progress\<newline>\<newline>'' @ step inp @ ''\<newline>\<newline>'') @
     ''### Findings\<newline>'' @ findings inp @ ''\<newline>\<newline>'' @
     (if length (or_default [] (review_files_checked inp)) > 0 then
        ''### Files Examined\<newline>'' @ bullets (or_default [] (review_files_checked inp)) @
        ''\<newline>\<newline>''
      else []) @
     (if length (or_default [] (review_relevant_files inp)) > 0 then
        ''### Key Files\<newline>'' @ bullets (or_default [] (review_relevant_files inp)) @
        ''\<newline>\<newline>''
      else []) @
     (if length (or_default [] (review_issues_found inp)) > 0 then
        issues_identified review_location (or_default [] (review_issues_found inp))
      else []) @
     (if next_step_required inp then
        ''### Next Review Phase\<newline>'' @
        ''Continue the review by:\<newline>'' @
        ''- Examining additional aspects\<newline>'' @
        ''- Looking for related issues\<newline>'' @
        ''- Validating findings\<newline>''
      else
        ''### Review Summary\<newline>'' @
        ''Provide final summary including:\<newline>'' @
        ''- Overall code quality assessment\<newline>'' @
        ''- Critical issues that must be addressed\<newline>'' @
        ''- Recommendations for improvement\<newline>'' @
        ''- Positive aspects worth noting\<newline>'')"

definition codereview_trailer :: "codereview_input \<Rightarrow> string \<Rightarrow> string" where
  "codereview_trailer inp convId =
     ''\<newline>\<newline>---\<newline>'' @
     ''**Code Review Info**\<newline>'' @
     ''- Step: '' @ show_nat (step_number inp) @ ''/'' @ show_nat (total_steps inp) @ ''\<newline>'' @
     ''- Review Type: '' @ review_name (review_kind inp) @ ''\<newline>'' @
     ''- Issues Found: '' @ show_nat (length (or_default [] (review_issues_found inp))) @
        ''\<newline>'' @
     ''- Continuation ID: '' @ convId @ ''\<newline>'' @
     ''- Next step required: '' @ (if next_step_required inp then ''Yes'' else ''No'') @ ''\<newline>''"

definition codereview_metadata :: "codereview_input \<Rightarrow> meta" where
  "codereview_metadata inp =
     [''tool'' \<mapsto> JString ''codereview'', ''model'' \<mapsto> JString (model inp),
      ''review_type'' \<mapsto> JString (review_name (review_kind inp))]"

definition codereview_system :: "codereview_input \<Rightarrow> chat_message" where
  "codereview_system inp =
     \<lparr>role = System,
      content = ''You are an expert code reviewer conducting a '' @ review_name (review_kind inp) @
        '' review. Provide thorough, constructive feedback with specific recommendations.''\<rparr>"

definition codereview_execute :: "codereview_input \<Rightarrow> tool_reads \<Rightarrow> backend \<Rightarrow> world \<Rightarrow> outcome" where
  "codereview_execute inp rd chat w0 =
     (let (msgs, convId, w1) =
            resolve_conversation (continuation_id inp) (codereview_metadata inp) (new_conv rd) w0;
          body = codereview_prompt inp;
          w2 = (if length (arrays w1 msgs) = 0 then push msgs (codereview_system inp) w1 else w1)
      in send_and_store msgs convId body (model inp) (Some 0.5) rd chat
           (codereview_trailer inp) w2)"

subsection \<open>precommit (src/tools/precommit.ts)\<close>

record precommit_input = step_input +
  path :: "string option"
  precommit_relevant_files :: "string list option"
  precommit_issues_found :: "issue list option"
  include_staged :: "bool option"
  include_unstaged :: "bool option"

definition precommit_location :: "issue \<Rightarrow> string" where
  "precommit_location i = (if truthy (issue_file i) then '' ['' @ show_opt (issue_file i) @ '']'' else [])"

text \<open>The check mark U+2713 and the ballot cross U+2717, followed by the word.\<close>

definition included :: "bool \<Rightarrow> string" where
  "included b =
     (if b then [CHR 0xE2, CHR 0x9C, CHR 0x93] @ '' Included''
      else [CHR 0xE2, CHR 0x9C, CHR 0x97] @ '' Excluded'')"

definition precommit_prompt :: "precommit_input \<Rightarrow> string" where
  "precommit_prompt inp =
     ''# Pre-Commit Validation - Step '' @ show_nat (step_number inp) @ ''/'' @
        show_nat (total_steps inp) @ ''\<newline>\<newline>'' @
     (if truthy (path inp) then
        ''**Repository**: '' @ show_opt (path inp) @ ''\<newline>\<newline>''
      else []) @
     (if step_number inp = 1 then
        ''## Validation Strategy\<newline>\<newline>'' @ step inp @ ''\<newline>\<newline>'' @
        ''### Change Scope\<newline>'' @
        ''- Staged changes: '' @ included (or_default True (include_staged inp)) @ ''\<newline>'' @
        ''- Unstaged changes: '' @ included (or_default True (include_unstaged inp)) @
          ''\<newline>\<newline>'' @
        ''### Validation Checklist\<newline>'' @
        ''Analyze changes for:\<newline>'' @
        ''- Code quality and correctness\<newline>'' @
        ''- Security vulnerabilities\<newline>'' @
        ''- Breaking changes\<newline>'' @
        ''- Missing tests or documentation\<newline>'' @
        ''- Accidental inclusion of sensitive data\<newline>\<newline>''
      else
        ''## Validation Progress\<newline>\<newline>'' @ step inp @ ''\<newline>\<newline>'') @
     ''### Findings\<newline>'' @ findings inp @ ''\<newline>\<newline>'' @
     (if length (or_default [] (precommit_relevant_files inp)) > 0 then
        ''### Files Under Review\<newline>'' @
        bullets (or_default [] (precommit_relevant_files inp)) @ ''\<newline>\<newline>''
      else []) @
     (if length (or_default [] (precommit_issues_found inp)) > 0 then
        issues_identified precommit_location (or_default [] (precommit_issues_found inp))
      else []) @
     (if next_step_required inp then
        ''### Next Validation Phase\<newline>'' @
        ''Continue validation by:\<newline>'' @
        ''- Examining additional changes\<newline>'' @
        ''- Checking for related issues\<newline>'' @
        ''- Verifying completeness\<newline>''
      else
        ''### Final Validation\<newline>'' @
        ''Provide final assessment:\<newline>'' @
        ''- Is the commit safe to proceed? (Yes/No with explanation)\<newline>'' @
        ''- Critical blockers that must be addressed\<newline>'' @
        ''- Recommendations before committing\<newline>'' @
        ''- Suggested commit message if approved\<newline>'')"

definition precommit_trailer :: "precommit_input \<Rightarrow> string \<Rightarrow> string" where
  "precommit_trailer inp convId =
     ''\<newline>\<newline>---\<newline>'' @
     ''**Pre-Commit Validation Info**\<newline>'' @
     ''- Step: '' @ show_nat (step_number inp) @ ''/'' @ show_nat (total_steps inp) @ ''\<newline>'' @
     ''- Issues Found: '' @ show_nat (length (or_default [] (precommit_issues_found inp))) @
        ''\<newline>'' @
     (if truthy (path inp) then ''- Repository: '' @ show_opt (path inp) @ ''\<newline>'' else []) @
     ''- Continuation ID: '' @ convId @ ''\<newline>'' @
     ''- Next step required: '' @ (if next_step_required inp then ''Yes'' else ''No'') @ ''\<newline>''"

definition precommit_metadata :: "precommit_input \<Rightarrow> meta" where
  "precommit_metadata inp =
     [''tool'' \<mapsto> JString ''precommit'', ''model'' \<mapsto> JString (model inp),
      ''path'' \<mapsto> json_opt (path inp)]"

definition precommit_system :: chat_message where
  "precommit_system =
     \<lparr>role = System,
      content = ''You are a pre-commit validation expert. Analyze changes thoroughly to prevent bugs, security issues, and quality problems from being committed.''\<rparr>"

definition precommit_execute :: "precommit_input \<Rightarrow> tool_reads \<Rightarrow> backend \<Rightarrow> world \<Rightarrow> outcome" where
  "precommit_execute inp rd chat w0 =
     (let (msgs, convId, w1) =
            resolve_conversation (continuation_id inp) (precommit_metadata inp) (new_conv rd) w0;
          body = precommit_prompt inp;
          w2 = (if length (arrays w1 msgs) = 0 then push msgs precommit_system w1 else w1)
      in send_and_store msgs convId body (model inp) (Some 0.4) rd chat
           (precommit_trailer inp) w2)"

subsection \<open>chat (src/tools/chat.ts)\<close>

record chat_input = tool_input +
  prompt :: string
  files :: "string list option"
  temperature :: "real option"
  chat_thinking_mode :: "string option"

definition chat_metadata :: "chat_input \<Rightarrow> meta" where
  "chat_metadata inp =
     [''model'' \<mapsto> JString (model inp), ''thinking_mode'' \<mapsto> json_opt (chat_thinking_mode inp)]"

definition contextPrompt :: "chat_input \<Rightarrow> string" where
  "contextPrompt inp =
     (let fs = or_default [] (files inp) in
      if length fs > 0 then
        ''Context files:\<newline>'' @ join ''\<newline>'' (map (\<lambda>f. ''File: '' @ f) fs) @
        ''\<newline>\<newline>'' @ prompt inp
      else prompt inp)"

definition chat_trailer :: "chat_input \<Rightarrow> string \<Rightarrow> string" where
  "chat_trailer inp convId =
     (if \<not> truthy (continuation_id inp) then
        ''\<newline>\<newline>---\<newline>*Conversation ID: '' @ convId @
        ''*\<newline>Use this continuation_id to continue this conversation.''
      else [])"

text \<open>
  The chat tool resolves the conversation with its own block (chat.ts 29-50): for a token
  with stored messages it copies them, \<open>messages = [...existingMessages]\<close>, into a new array.
\<close>

definition chat_resolve_conversation ::
    "string option \<Rightarrow> meta \<Rightarrow> create_reads \<Rightarrow> world \<Rightarrow> ref \<times> string \<times> world" where
  "chat_resolve_conversation cont md rd w0 =
     (let (local, w1) = new_array [] w0 in
      if truthy cont then
        (case cont of
           None \<Rightarrow> start_conversation md rd local w1
         | Some token \<Rightarrow>
             (let (existingMessages, w2) = getMessages token w1 in
              if length (arrays w2 existingMessages) > 0 then
                (let (copy, w3) = new_array (arrays w2 existingMessages) w2
                 in (copy, token, w3))
              else start_conversation md rd local w2))
      else start_conversation md rd local w1)"

definition chat_system :: "chat_input \<Rightarrow> chat_message" where
  "chat_system inp =
     \<lparr>role = System,
      content = ''You are operating in '' @ show_opt (chat_thinking_mode inp) @
        '' thinking mode. Adjust your reasoning depth accordingly:\<newline>'' @
        ''- minimal: Quick, direct responses\<newline>'' @
        ''- low: Basic reasoning\<newline>'' @
        ''- medium: Moderate analysis\<newline>'' @
        ''- high: Deep analysis with multiple perspectives\<newline>'' @
        ''- max: Comprehensive reasoning with extensive exploration''\<rparr>"

definition chat_execute :: "chat_input \<Rightarrow> tool_reads \<Rightarrow> backend \<Rightarrow> world \<Rightarrow> outcome" where
  "chat_execute inp rd chat w0 =
     (let (msgs, convId, w1) =
            chat_resolve_conversation (continuation_id inp) (chat_metadata inp) (new_conv rd) w0;
          w2 = (if truthy (chat_thinking_mode inp) \<and> length (arrays w1 msgs) = 0 then
                  push msgs (chat_system inp) w1
                else w1)
      in send_and_store msgs convId (contextPrompt inp) (model inp) (temperature inp) rd chat
           (chat_trailer inp) w2)"

section \<open>Notions used in the statements\<close>

text \<open>The ids the store tracks, in the order of the \<open>Map\<close>.\<close>

definition ids :: "world \<Rightarrow> string list" where
  "ids w = map fst (conversations w)"

text \<open>The messages stored under an id: the contents of its array, nothing for an untracked id.\<close>

definition stored_messages :: "string \<Rightarrow> world \<Rightarrow> chat_message list" where
  "stored_messages i w = (case get i w of None \<Rightarrow> [] | Some conv \<Rightarrow> arrays w (messages conv))"

text \<open>Every array a conversation points to has been allocated.\<close>

definition heap_ok :: "world \<Rightarrow> bool" where
  "heap_ok w \<longleftrightarrow> (\<forall>(i, conv) \<in> set (conversations w). messages conv < next_ref w)"

text \<open>
  A continuation token is supplied (it passes the test \<open>if (continuation_id)\<close>: present and
  not the empty string) and resolves to a conversation with at least one stored message.
  No id that \<open>generateId\<close> returns is the empty string.
\<close>

definition reusable :: "string option \<Rightarrow> world \<Rightarrow> bool" where
  "reusable cont w \<longleftrightarrow>
     (case cont of None \<Rightarrow> False | Some token \<Rightarrow> token \<noteq> [] \<and> stored_messages token w \<noteq> [])"

text \<open>The response is a text whose trailer has the line \<open>- Continuation ID: <id>\<close>.\<close>

definition reports :: "error + string \<Rightarrow> string \<Rightarrow> bool" where
  "reports res i \<longleftrightarrow>
     (case res of Inl e \<Rightarrow> False
      | Inr text \<Rightarrow> sublist (''- Continuation ID: '' @ i @ ''\<newline>'') text)"

text \<open>
  A call of a step-based tool: which of the six tools, and its input. \<open>execute\<close> runs
  the call; \<open>call_token\<close> is its \<open>continuation_id\<close>, and \<open>call_metadata\<close> is the metadata
  object its \<open>create\<close> call passes.
\<close>

datatype step_call =
    Planner planner_input
  | Debug debug_input
  | Thinkdeep thinkdeep_input
  | Consensus consensus_input
  | Codereview codereview_input
  | Precommit precommit_input

fun execute :: "step_call \<Rightarrow> tool_reads \<Rightarrow> backend \<Rightarrow> world \<Rightarrow> outcome" where
  "execute (Planner inp) rd chat w = planner_execute inp rd chat w"
| "execute (Debug inp) rd chat w = debug_execute inp rd chat w"
| "execute (Thinkdeep inp) rd chat w = thinkdeep_execute inp rd chat w"
| "execute (Consensus inp) rd chat w = consensus_execute inp rd chat w"
| "execute (Codereview inp) rd chat w = codereview_execute inp rd chat w"
| "execute (Precommit inp) rd chat w = precommit_execute inp rd chat w"

fun call_token :: "step_call \<Rightarrow> string option" where
  "call_token (Planner inp) = continuation_id inp"
| "call_token (Debug inp) = continuation_id inp"
| "call_token (Thinkdeep inp) = continuation_id inp"
| "call_token (Consensus inp) = continuation_id inp"
| "call_token (Codereview inp) = continuation_id inp"
| "call_token (Precommit inp) = continuation_id inp"

fun call_metadata :: "step_call \<Rightarrow> meta" where
  "call_metadata (Planner inp) = planner_metadata inp"
| "call_metadata (Debug inp) = debug_metadata inp"
| "call_metadata (Thinkdeep inp) = thinkdeep_metadata inp"
| "call_metadata (Consensus inp) = consensus_metadata inp"
| "call_metadata (Codereview inp) = codereview_metadata inp"
| "call_metadata (Precommit inp) = precommit_metadata inp"

text \<open>
  The conditions under which a \<open>create\<close> call keeps the conversation it has just made: the
  store is within its capacity, which is at least 1; the generated id is not in use; no
  stored \<open>updated_at\<close> lies after the clock reading of \<open>create\<close>; and the cleanup pass reads
  the clock within the retention window.
\<close>

definition orderly :: "create_reads \<Rightarrow> world \<Rightarrow> bool" where
  "orderly rd w \<longleftrightarrow>
     store_ok w \<and> 1 \<le> maxConversations w \<and>
     generateId (id_time rd) (id_random rd) \<notin> set (ids w) \<and>
     (\<forall>p \<in> set (conversations w). updated_at (snd p) \<le> create_time rd) \<and>
     cleanup_time rd - create_time rd \<le> maxAge w"

text \<open>
  The store tracks under the id \<open>i\<close> the conversation a \<open>create\<close> call with these readings
  and this metadata has made.
\<close>

definition tracked_as_new :: "string \<Rightarrow> meta \<Rightarrow> create_reads \<Rightarrow> world \<Rightarrow> bool" where
  "tracked_as_new i md rd w \<longleftrightarrow>
     (case get i w of
        None \<Rightarrow> False
      | Some conv \<Rightarrow>
          conv_id conv = i \<and> metadata conv = Some md \<and> created_at conv = create_time rd)"

text \<open>
  The resolution rule of the step-based tools, in the words of the specification: a reusable
  token's conversation is reused and its id reported, and no conversation is created;
  otherwise a conversation is created (the store tracks the ids a \<open>create\<close> call leaves),
  the id \<open>create\<close> returned is reported, and under the conditions above the store tracks
  the new conversation under the reported id when the call is over.
\<close>

definition resolved_as_specified ::
    "string option \<Rightarrow> meta \<Rightarrow> create_reads \<Rightarrow> world \<Rightarrow> outcome \<Rightarrow> bool" where
  "resolved_as_specified cont md rd w out \<longleftrightarrow>
     (if reusable cont w then
        (case cont of None \<Rightarrow> False | Some token \<Rightarrow> reports (result out) token) \<and>
        ids (after out) = ids w
      else
        reports (result out) (generateId (id_time rd) (id_random rd)) \<and>
        ids (after out) = ids (snd (create None (Some md) rd w)) \<and>
        (orderly rd w \<longrightarrow>
           tracked_as_new (generateId (id_time rd) (id_random rd)) md rd (after out)))"

text \<open>An entry of the store reduced to what the cleanup pass looks at: id and \<open>updated_at\<close>.\<close>

definition stamp :: "string \<times> conversation \<Rightarrow> string \<times> int" where
  "stamp p = (fst p, updated_at (snd p))"

section \<open>Example inputs\<close>

text \<open>A \<open>create\<close> call all of whose clock readings are \<open>t\<close>.\<close>

definition reads_at :: "int \<Rightarrow> string \<Rightarrow> create_reads" where
  "reads_at t s = \<lparr>id_time = t, id_random = s, create_time = t, cleanup_time = t\<rparr>"

text \<open>A store that tracks one conversation, last updated at time 0.\<close>

definition day_old_store :: world where
  "day_old_store =
     ConversationMemoryManager
       \<lparr>conversations :=
          [(''conv_0_a'', \<lparr>conv_id = ''conv_0_a'', messages = 0, metadata = None,
                          created_at = 0, updated_at = 0\<rparr>)],
        next_ref := 1\<rparr>"

text \<open>A tool call all of whose clock readings are \<open>t\<close>, and a backend that always answers.\<close>

definition tool_reads_at :: "int \<Rightarrow> string \<Rightarrow> tool_reads" where
  "tool_reads_at t s = \<lparr>new_conv = reads_at t s, user_time = t, reply_time = t\<rparr>"

definition canned_backend :: backend where
  "canned_backend req = Inr \<lparr>role = Assistant, content = ''Test response''\<rparr>"

text \<open>A store that tracks one conversation holding one user turn and one assistant turn.\<close>

definition one_turn_store :: world where
  "one_turn_store =
     ConversationMemoryManager
       \<lparr>conversations :=
          [(''conv_1000_a'', \<lparr>conv_id = ''conv_1000_a'', messages = 0, metadata = None,
                             created_at = 1000, updated_at = 1500\<rparr>)],
        arrays := (\<lambda>_. [])(0 := [\<lparr>role = User, content = ''Plan the migration''\<rparr>,
                                   \<lparr>role = Assistant, content = ''Start with the schema''\<rparr>]),
        next_ref := 1\<rparr>"

text \<open>Tool inputs: a planner step continuing that conversation, a first debug step without a
  token, a consensus step with a token that was never issued, a first thinkdeep step without
  a token, a precommit step with a token that was never issued, a chat call with a stale
  token.\<close>

definition follow_up_plan :: planner_input where
  "follow_up_plan =
     \<lparr>model = ''qwen2.5:latest'', continuation_id = Some ''conv_1000_a'',
      step = ''Detail the cut-over'', step_number = 2, total_steps = 3,
      next_step_required = True, findings = [],
      is_step_revision = None, revises_step_number = None, is_branch_point = None,
      branch_id = None, branch_from_step = None\<rparr>"

definition first_debug_step :: debug_input where
  "first_debug_step =
     \<lparr>model = ''qwen2.5:latest'', continuation_id = None,
      step = ''Reproduce the crash'', step_number = 1, total_steps = 2,
      next_step_required = True, findings = ''Nothing yet'',
      files_checked = None, relevant_files = None, relevant_context = None,
      hypothesis = None, confidence = None, backtrack_from_step = None, thinking_mode = None\<rparr>"

definition two_participants :: "string \<Rightarrow> consensus_input" where
  "two_participants first_model =
     \<lparr>model = ''qwen2.5:latest'', continuation_id = Some ''does-not-exist'',
      step = ''Adopt the new queue?'', step_number = 2, total_steps = 4,
      next_step_required = True, findings = ''Open'',
      models = [\<lparr>config_model = first_model, stance = Some ''for'', stance_prompt = None\<rparr>,
                \<lparr>config_model = ''mistral:latest'', stance = Some ''against'', stance_prompt = None\<rparr>],
      current_model_index = Some 0, model_responses = None, consensus_relevant_files = None\<rparr>"

definition first_thought :: thinkdeep_input where
  "first_thought =
     \<lparr>model = ''qwen2.5:latest'', continuation_id = None,
      step = ''Which queue fits?'', step_number = 1, total_steps = 3,
      next_step_required = True, findings = ''Two candidates'',
      thinkdeep_thinking_mode = None\<rparr>"

definition stale_validation :: precommit_input where
  "stale_validation =
     \<lparr>model = ''qwen2.5:latest'', continuation_id = Some ''does-not-exist'',
      step = ''Check the staged changes'', step_number = 1, total_steps = 2,
      next_step_required = True, findings = ''None yet'',
      path = Some ''/repo'', precommit_relevant_files = None, precommit_issues_found = None,
      include_staged = None, include_unstaged = Some False\<rparr>"

definition stale_chat :: chat_input where
  "stale_chat =
     \<lparr>model = ''qwen2.5:latest'', continuation_id = Some ''invalid_id_does_not_exist'',
      prompt = ''Test'', files = None, temperature = None, chat_thinking_mode = None\<rparr>"

section \<open>Properties of the store\<close>

subsection \<open>The two loops of cleanup as filters\<close>

lemma remove_old_filter:
  "remove_old mx now snap m =
     filter (\<lambda>p. fst p \<notin> fst ` set (filter (\<lambda>q. now - updated_at (snd q) > mx) snap)) m"
proof (induction snap arbitrary: m)
  case Nil
  then show ?case by simp
next
  case (Cons a snap)
  obtain i c where a: "a = (i, c)" by (cases a)
  show ?case
  proof (cases "now - updated_at c > mx")
    case True
    then show ?thesis
      unfolding a by (simp add: Cons.IH AList.delete_eq) (rule filter_cong, auto)
  next
    case False
    then show ?thesis unfolding a by (simp add: Cons.IH)
  qed
qed

lemma remove_ids_filter:
  "remove_ids rem m = filter (\<lambda>p. fst p \<notin> fst ` set rem) m"
proof (induction rem arbitrary: m)
  case Nil
  then show ?case by simp
next
  case (Cons a rem)
  obtain i c where a: "a = (i, c)" by (cases a)
  show ?case
    unfolding a by (simp add: Cons.IH AList.delete_eq) (rule filter_cong, auto)
qed

lemma remove_old_self:
  assumes "distinct (map fst m)"
  shows "remove_old mx now m m = filter (\<lambda>p. \<not> now - updated_at (snd p) > mx) m"
  unfolding remove_old_filter
proof (rule filter_cong[OF refl])
  fix p assume p: "p \<in> set m"
  have "\<And>q. q \<in> set m \<Longrightarrow> fst q = fst p \<Longrightarrow> q = p"
    using assms p by (metis eq_key_imp_eq_value prod.collapse)
  then show "(fst p \<notin> fst ` set (filter (\<lambda>q. mx < now - updated_at (snd q)) m)) = (\<not> mx < now - updated_at (snd p))"
    using p by force
qed

lemma length_filter_keys:
  assumes "distinct (map fst m)" "K \<subseteq> fst ` set m"
  shows "length (filter (\<lambda>p. fst p \<notin> K) m) = length m - card K"
proof -
  have fin: "finite K" using assms(2) by (meson finite_imageI finite_set finite_subset)
  have d: "distinct (filter (\<lambda>k. k \<notin> K) (map fst m))" using assms(1) by simp
  have "length (filter (\<lambda>p. fst p \<notin> K) m) = length (filter (\<lambda>k. k \<notin> K) (map fst m))"
    by (simp add: filter_map comp_def)
  also have "\<dots> = card (set (filter (\<lambda>k. k \<notin> K) (map fst m)))"
    using distinct_card[OF d] by simp
  also have "set (filter (\<lambda>k. k \<notin> K) (map fst m)) = fst ` set m - K" by auto
  also have "card (fst ` set m - K) = card (fst ` set m) - card K"
    using assms(2) fin by (simp add: card_Diff_subset)
  also have "card (fst ` set m) = length m"
    using assms(1) by (metis distinct_card length_map set_map)
  finally show ?thesis .
qed


lemma cleanup_conversations:
  assumes "distinct (map fst (conversations w))"
  shows "conversations (cleanup now w) =
    (let m1 = filter (\<lambda>p. \<not> expired w now (snd p)) (conversations w) in
     if length m1 > maxConversations w then
       filter (\<lambda>p. fst p \<notin> fst ` set (take (length m1 - maxConversations w)
                  (sort_key (\<lambda>(i, conv). updated_at conv) (conversations w)))) m1
     else m1)"
  using assms
  by (simp add: cleanup_def Let_def remove_old_self remove_ids_filter expired_def)

lemma cleanup_fields [simp]:
  "maxConversations (cleanup now w) = maxConversations w"
  "maxAge (cleanup now w) = maxAge w"
  "arrays (cleanup now w) = arrays w"
  "next_ref (cleanup now w) = next_ref w"
  by (simp_all add: cleanup_def Let_def)

lemma cleanup_subset:
  "set (conversations (cleanup now w)) \<subseteq> set (conversations w)"
  by (auto simp: cleanup_def Let_def remove_old_filter remove_ids_filter)

lemma cleanup_distinct:
  "distinct (map fst (conversations w)) \<Longrightarrow> distinct (map fst (conversations (cleanup now w)))"
  by (simp add: cleanup_def Let_def remove_old_filter remove_ids_filter distinct_map_filter)

lemma sorted_take_drop:
  assumes "sorted (map f xs)" "x \<in> set (take n xs)" "y \<in> set (drop n xs)"
  shows "f x \<le> f y"
proof -
  have "sorted (map f (take n xs) @ map f (drop n xs))"
    using assms(1) by (metis append_take_drop_id map_append)
  then show ?thesis using assms(2,3) by (auto simp: sorted_append)
qed

lemma cleanup_keeps_most_recent:
  assumes d: "distinct (map fst (conversations w))"
    and e: "(i, e) \<in> set (conversations w)" "(i, e) \<notin> set (conversations (cleanup now w))"
    and r: "(j, r) \<in> set (conversations (cleanup now w))"
  shows "updated_at e \<le> updated_at r"
proof -
  let ?L = "conversations w"
  let ?m1 = "filter (\<lambda>p. \<not> expired w now (snd p)) ?L"
  let ?S = "sort_key (\<lambda>(i, conv). updated_at conv) ?L"
  let ?n = "length ?m1 - maxConversations w"
  have rL: "(j, r) \<in> set ?L" using r cleanup_subset by blast
  have rm1: "(j, r) \<in> set ?m1"
    using r by (auto simp: cleanup_conversations[OF d] Let_def split: if_splits)
  then have rfresh: "\<not> expired w now r" by simp
  show ?thesis
  proof (cases "expired w now e")
    case True
    then show ?thesis using rfresh by (simp add: expired_def)
  next
    case False
    then have em1: "(i, e) \<in> set ?m1" using e(1) by simp
    have big: "length ?m1 > maxConversations w"
      using e(2) em1 by (auto simp: cleanup_conversations[OF d] Let_def split: if_splits)
    have "i \<in> fst ` set (take ?n ?S)"
      using e(2) em1 big by (auto simp: cleanup_conversations[OF d] Let_def)
    then obtain e' where e': "(i, e') \<in> set (take ?n ?S)" by force
    then have "(i, e') \<in> set ?L" by (metis in_set_takeD set_sort)
    then have "e' = e" using d e(1) by (meson eq_key_imp_eq_value)
    then have eT: "(i, e) \<in> set (take ?n ?S)" using e' by simp
    have "j \<notin> fst ` set (take ?n ?S)"
      using r big by (auto simp: cleanup_conversations[OF d] Let_def)
    then have "(j, r) \<notin> set (take ?n ?S)" by force
    moreover have "(j, r) \<in> set ?S" using rL by simp
    ultimately have rD: "(j, r) \<in> set (drop ?n ?S)"
      by (metis Un_iff append_take_drop_id set_append)
    have "sorted (map (\<lambda>(i, conv). updated_at conv) ?S)" by (rule sorted_sort_key)
    from sorted_take_drop[OF this eT rD] show ?thesis by simp
  qed
qed

lemma cleanup_size:
  assumes d: "distinct (map fst (conversations w))"
    and le: "length (conversations w) \<le> Suc (maxConversations w)"
  shows "length (conversations (cleanup now w)) =
         min (maxConversations w)
             (length (filter (\<lambda>p. \<not> expired w now (snd p)) (conversations w)))"
proof -
  let ?L = "conversations w"
  let ?m1 = "filter (\<lambda>p. \<not> expired w now (snd p)) ?L"
  let ?S = "sort_key (\<lambda>(i, conv). updated_at conv) ?L"
  show ?thesis
  proof (cases "length ?m1 > maxConversations w")
    case False
    then show ?thesis by (simp add: cleanup_conversations[OF d] Let_def)
  next
    case True
    have "length ?m1 \<le> length ?L" by simp
    with True le have len: "length ?m1 = length ?L" "length ?L = Suc (maxConversations w)"
      by linarith+
    have all: "?m1 = ?L"
    proof (rule ccontr)
      assume "?m1 \<noteq> ?L"
      then obtain x where "x \<in> set ?L" "\<not> \<not> expired w now (snd x)"
        by (metis (mono_tags, lifting) filter_True)
      then have "length ?m1 < length ?L" by (rule length_filter_less)
      with len show False by simp
    qed
    have ne: "?S \<noteq> []" using len(2) by (metis length_0_conv length_sort nat.distinct(1))
    then have tk: "take (Suc 0) ?S = [hd ?S]" by (cases ?S) simp_all
    have "hd ?S \<in> set ?L" using ne by (metis hd_in_set set_sort)
    then have sub: "{fst (hd ?S)} \<subseteq> fst ` set ?L" by auto
    have "length (conversations (cleanup now w)) =
          length (filter (\<lambda>p. fst p \<notin> {fst (hd ?S)}) ?L)"
      using True by (simp add: cleanup_conversations[OF d] Let_def all len tk)
    also have "\<dots> = length ?L - card {fst (hd ?S)}"
      by (rule length_filter_keys[OF d sub])
    finally show ?thesis using len True by simp
  qed
qed

subsection \<open>The store invariant\<close>

lemma length_map_entry [simp]: "length (AList.map_entry k f xs) = length xs"
  by (induction xs) auto

lemma keys_map_entry [simp]: "map fst (AList.map_entry k f xs) = map fst xs"
  by (induction xs) auto

lemma length_update_le: "length (AList.update k v al) \<le> Suc (length al)"
  by (induction al) auto

lemma register_conversations:
  "conversations (register im md rd w) =
     AList.update (generateId (id_time rd) (id_random rd))
       \<lparr>conv_id = generateId (id_time rd) (id_random rd),
        messages = (case im of None \<Rightarrow> next_ref w | Some a \<Rightarrow> a), metadata = md,
        created_at = create_time rd, updated_at = create_time rd\<rparr>
       (conversations w)"
  by (cases im) (simp_all add: register_def new_array_def Let_def)

lemma register_fields [simp]:
  "maxConversations (register im md rd w) = maxConversations w"
  "maxAge (register im md rd w) = maxAge w"
  by (cases im; simp add: register_def new_array_def Let_def)+

lemma register_ok:
  assumes "store_ok w"
  shows "distinct (map fst (conversations (register im md rd w)))"
    and "length (conversations (register im md rd w)) \<le> Suc (maxConversations w)"
proof -
  show "distinct (map fst (conversations (register im md rd w)))"
    using assms unfolding register_conversations store_ok_def by (simp add: distinct_update)
  have "length (conversations (register im md rd w)) \<le> Suc (length (conversations w))"
    unfolding register_conversations by (rule length_update_le)
  then show "length (conversations (register im md rd w)) \<le> Suc (maxConversations w)"
    using assms unfolding store_ok_def by simp
qed

lemma create_fields [simp]:
  "maxConversations (snd (create im md rd w)) = maxConversations w"
  "maxAge (snd (create im md rd w)) = maxAge w"
  by (simp_all add: create_def)

lemma create_ok: "store_ok w \<Longrightarrow> store_ok (snd (create im md rd w))"
  using register_ok[of w im md rd]
  by (simp add: store_ok_def create_def cleanup_distinct cleanup_size)

lemma exec_maxConversations [simp]: "maxConversations (exec c w) = maxConversations w"
  by (cases c)
     (auto simp: addMessage_def updateMetadata_def delete_def clear_def push_def Let_def
           split: option.splits)

lemma exec_ok: "store_ok w \<Longrightarrow> store_ok (exec c w)"
proof (cases c)
  case (Create im md rd)
  then show "store_ok w \<Longrightarrow> store_ok (exec c w)" by (simp add: create_ok)
next
  case (AddMessage i m now)
  then show "store_ok w \<Longrightarrow> store_ok (exec c w)"
    by (auto simp: store_ok_def addMessage_def push_def Let_def split: option.splits)
next
  case (UpdateMetadata i md now)
  then show "store_ok w \<Longrightarrow> store_ok (exec c w)"
    by (auto simp: store_ok_def updateMetadata_def split: option.splits)
next
  case (Delete i)
  then show "store_ok w \<Longrightarrow> store_ok (exec c w)"
    using length_delete_le[of i "conversations w"]
    by (auto simp: store_ok_def delete_def distinct_delete)
next
  case Clear
  then show "store_ok w \<Longrightarrow> store_ok (exec c w)" by (simp add: store_ok_def clear_def)
qed

lemma run_ok: "store_ok w \<Longrightarrow> store_ok (run cs w) \<and> maxConversations (run cs w) = maxConversations w"
  by (induction cs arbitrary: w) (simp_all add: exec_ok)

lemma generateId_nonempty: "generateId now rnd \<noteq> []"
  by (simp add: generateId_def)

lemma empty_ok: "conversations w = [] \<Longrightarrow> store_ok w"
  by (simp add: store_ok_def)

lemma create_on_empty:
  assumes "conversations w = []" "cleanup_time rd - create_time rd \<le> maxAge w"
    "1 \<le> maxConversations w"
  shows "conversations (snd (create im md rd w)) =
     [(generateId (id_time rd) (id_random rd),
       \<lparr>conv_id = generateId (id_time rd) (id_random rd),
        messages = (case im of None \<Rightarrow> next_ref w | Some a \<Rightarrow> a), metadata = md,
        created_at = create_time rd, updated_at = create_time rd\<rparr>)]"
  using assms
  by (simp add: create_def cleanup_def Let_def register_conversations)

lemma get_create_on_empty:
  assumes "conversations w = []" "cleanup_time rd - create_time rd \<le> maxAge w"
    "1 \<le> maxConversations w"
  shows "get (generateId (id_time rd) (id_random rd)) (snd (create im md rd w)) =
     Some \<lparr>conv_id = generateId (id_time rd) (id_random rd),
        messages = (case im of None \<Rightarrow> next_ref w | Some a \<Rightarrow> a), metadata = md,
        created_at = create_time rd, updated_at = create_time rd\<rparr>"
  by (simp add: get_def create_on_empty[OF assms])

lemma fst_create: "fst (create im md rd w) = generateId (id_time rd) (id_random rd)"
  by (simp add: create_def)

subsection \<open>Cleanup seen on ids and time stamps\<close>

lemma insort_key_map:
  "map g (insort_key (\<lambda>x. f (g x)) x ys) = insort_key f (g x) (map g ys)"
  by (induction ys) auto

lemma sort_key_map:
  "map g (sort_key (\<lambda>x. f (g x)) xs) = sort_key f (map g xs)"
  by (induction xs) (simp_all add: insort_key_map)

lemma keys_remove_old:
  "map fst (remove_old mx now snap m) =
     filter (\<lambda>k. k \<notin> fst ` set (filter (\<lambda>q. now - snd q > mx) (map stamp snap))) (map fst m)"
proof -
  have "fst ` set (filter (\<lambda>q. mx < now - updated_at (snd q)) snap) =
        fst ` set (filter (\<lambda>q. mx < now - snd q) (map stamp snap))"
    by (force simp: stamp_def)
  then show ?thesis
    unfolding remove_old_filter by (simp add: filter_map comp_def del: set_filter)
qed

lemma keys_remove_ids:
  "map fst (remove_ids rem m) = filter (\<lambda>k. k \<notin> set (map fst rem)) (map fst m)"
  unfolding remove_ids_filter by (simp add: filter_map comp_def)

lemma keys_sorted:
  "map fst (sort_key (\<lambda>(i, conv). updated_at conv) L) = map fst (sort_key snd (map stamp L))"
proof -
  have "(\<lambda>(i, conv). updated_at conv) = (\<lambda>x. snd (stamp x))" by (auto simp: stamp_def)
  then have "map stamp (sort_key (\<lambda>(i, conv). updated_at conv) L) = sort_key snd (map stamp L)"
    using sort_key_map[of stamp snd L] by simp
  then have "map fst (map stamp (sort_key (\<lambda>(i, conv). updated_at conv) L)) =
             map fst (sort_key snd (map stamp L))" by simp
  then show ?thesis by (simp add: stamp_def comp_def)
qed

lemma keys_stamp: "map fst (map stamp L) = map fst L"
  by (simp add: stamp_def comp_def)

lemma ids_cleanup_cong:
  assumes st: "map stamp (conversations w) = map stamp (conversations w')"
    and mx: "maxAge w = maxAge w'" and cap: "maxConversations w = maxConversations w'"
  shows "ids (cleanup now w) = ids (cleanup now w')"
proof -
  let ?L = "conversations w" and ?L' = "conversations w'"
  let ?m1 = "remove_old (maxAge w) now ?L ?L" and ?m1' = "remove_old (maxAge w') now ?L' ?L'"
  have k: "map fst ?L = map fst ?L'" using st keys_stamp by metis
  have m1: "map fst ?m1 = map fst ?m1'" unfolding keys_remove_old st mx k ..
  then have len: "length ?m1 = length ?m1'" by (metis length_map)
  have so: "map fst (sort_key (\<lambda>(i, conv). updated_at conv) ?L) =
            map fst (sort_key (\<lambda>(i, conv). updated_at conv) ?L')"
    unfolding keys_sorted st ..
  have "map fst (conversations (cleanup now w)) = map fst (conversations (cleanup now w'))"
  proof (cases "length ?m1 > maxConversations w")
    case True
    then have T': "length ?m1' > maxConversations w'" using len cap by simp
    have "map fst (remove_ids (take (length ?m1 - maxConversations w)
              (sort_key (\<lambda>(i, conv). updated_at conv) ?L)) ?m1) =
          map fst (remove_ids (take (length ?m1' - maxConversations w')
              (sort_key (\<lambda>(i, conv). updated_at conv) ?L')) ?m1')"
      unfolding keys_remove_ids take_map[symmetric] so m1 len cap ..
    then show ?thesis using True T' by (simp add: cleanup_def Let_def)
  next
    case False
    then have F': "\<not> length ?m1' > maxConversations w'" using len cap by simp
    show ?thesis using False F' m1 by (simp add: cleanup_def Let_def)
  qed
  then show ?thesis by (simp add: ids_def)
qed

lemma stamp_update:
  "map stamp (AList.update k v al) = AList.update k (updated_at v) (map stamp al)"
  by (induction al) (auto simp: stamp_def)

lemma ids_create_cong:
  assumes "conversations w = conversations w'"
    "maxAge w = maxAge w'" "maxConversations w = maxConversations w'"
  shows "ids (snd (create im md rd w)) = ids (snd (create im' md' rd w'))"
  unfolding create_def snd_conv
  by (rule ids_cleanup_cong) (simp_all add: register_conversations stamp_update assms)

lemma ids_cleanup_stamps:
  "ids (cleanup now w) =
     (let P = map stamp (conversations w);
          m1 = filter (\<lambda>k. k \<notin> fst ` set (filter (\<lambda>q. now - snd q > maxAge w) P)) (map fst P)
      in if length m1 > maxConversations w then
           filter (\<lambda>k. k \<notin> set (take (length m1 - maxConversations w) (map fst (sort_key snd P)))) m1
         else m1)"
proof -
  let ?L = "conversations w"
  let ?P = "map stamp ?L"
  let ?m1 = "remove_old (maxAge w) now ?L ?L"
  let ?k1 = "filter (\<lambda>k. k \<notin> fst ` set (filter (\<lambda>q. now - snd q > maxAge w) ?P)) (map fst ?P)"
  have k1: "map fst ?m1 = ?k1" unfolding keys_remove_old keys_stamp ..
  then have len: "length ?m1 = length ?k1" by (metis length_map)
  show ?thesis
  proof (cases "length ?m1 > maxConversations w")
    case True
    have "conversations (cleanup now w) =
          remove_ids (take (length ?m1 - maxConversations w)
              (sort_key (\<lambda>(i, conv). updated_at conv) ?L)) ?m1"
      using True by (simp add: cleanup_def Let_def)
    then have "ids (cleanup now w) =
          map fst (remove_ids (take (length ?m1 - maxConversations w)
              (sort_key (\<lambda>(i, conv). updated_at conv) ?L)) ?m1)"
      by (simp only: ids_def)
    also have "\<dots> =
          filter (\<lambda>k. k \<notin> set (take (length ?k1 - maxConversations w) (map fst (sort_key snd ?P)))) ?k1"
      unfolding keys_remove_ids take_map[symmetric] keys_sorted k1 len ..
    finally show ?thesis
      using True unfolding len by (simp only: Let_def if_True)
  next
    case False
    have "conversations (cleanup now w) = ?m1"
      using False by (simp add: cleanup_def Let_def)
    then have "ids (cleanup now w) = ?k1" using k1 by (simp only: ids_def)
    then show ?thesis
      using False unfolding len by (simp only: Let_def if_False)
  qed
qed

subsection \<open>A create call that evicts nothing\<close>

lemma update_absent: "k \<notin> fst ` set al \<Longrightarrow> AList.update k v al = al @ [(k, v)]"
  by (induction al) auto

lemma reads_at_simps [simp]:
  "id_time (reads_at t s) = t" "id_random (reads_at t s) = s"
  "create_time (reads_at t s) = t" "cleanup_time (reads_at t s) = t"
  by (simp_all add: reads_at_def)

lemma create_appends:
  assumes "generateId (id_time rd) (id_random rd) \<notin> fst ` set (conversations w)"
    and "length (conversations w) < maxConversations w"
    and "\<forall>p \<in> set (conversations w). cleanup_time rd - updated_at (snd p) \<le> maxAge w"
    and "cleanup_time rd - create_time rd \<le> maxAge w"
  shows "conversations (snd (create im md rd w)) =
     conversations w @
     [(generateId (id_time rd) (id_random rd),
       \<lparr>conv_id = generateId (id_time rd) (id_random rd),
        messages = (case im of None \<Rightarrow> next_ref w | Some a \<Rightarrow> a), metadata = md,
        created_at = create_time rd, updated_at = create_time rd\<rparr>)]"
proof -
  let ?L = "conversations (register im md rd w)"
  have L: "?L = conversations w @
     [(generateId (id_time rd) (id_random rd),
       \<lparr>conv_id = generateId (id_time rd) (id_random rd),
        messages = (case im of None \<Rightarrow> next_ref w | Some a \<Rightarrow> a), metadata = md,
        created_at = create_time rd, updated_at = create_time rd\<rparr>)]"
    using assms(1) by (simp add: register_conversations update_absent)
  have "\<forall>p \<in> set ?L. \<not> maxAge w < cleanup_time rd - updated_at (snd p)"
    unfolding L using assms(3,4) by auto
  then have "filter (\<lambda>q. maxAge w < cleanup_time rd - updated_at (snd q)) ?L = []"
    by (simp add: filter_empty_conv)
  then have "remove_old (maxAge w) (cleanup_time rd) ?L ?L = ?L"
    unfolding remove_old_filter by simp
  moreover have "length ?L \<le> maxConversations w" unfolding L using assms(2) by simp
  ultimately show ?thesis
    unfolding L[symmetric] by (simp add: create_def cleanup_def Let_def)
qed

subsection \<open>A create call under a monotone clock\<close>

text \<open>
  When the id is new, no stored \<open>updated_at\<close> lies after the clock reading of \<open>create\<close>,
  and the cleanup pass reads the clock within the retention window, the store tracks the
  conversation it has just created: the stable sort puts it last.
\<close>

lemma insort_key_last:
  assumes "f a \<le> f x" "\<forall>y \<in> set ys. f y \<le> f x"
  shows "insort_key f a (ys @ [x]) = insort_key f a ys @ [x]"
  using assms by (induction ys) auto

lemma sort_key_last:
  assumes "\<forall>y \<in> set xs. f y \<le> f x"
  shows "sort_key f (xs @ [x]) = sort_key f xs @ [x]"
  using assms
proof (induction xs)
  case Nil
  then show ?case by simp
next
  case (Cons a xs)
  then have "sort_key f (xs @ [x]) = sort_key f xs @ [x]" by simp
  moreover have "\<forall>y \<in> set (sort_key f xs). f y \<le> f x" using Cons.prems by simp
  ultimately show ?case using Cons.prems by (simp add: insort_key_last)
qed

lemma create_tracks_new_conversation:
  assumes ok: "store_ok w" and cap: "1 \<le> maxConversations w"
    and fresh: "generateId (id_time rd) (id_random rd) \<notin> fst ` set (conversations w)"
    and mono: "\<forall>p \<in> set (conversations w). updated_at (snd p) \<le> create_time rd"
    and quick: "cleanup_time rd - create_time rd \<le> maxAge w"
  shows "get (generateId (id_time rd) (id_random rd)) (snd (create im md rd w)) =
     Some \<lparr>conv_id = generateId (id_time rd) (id_random rd),
           messages = (case im of None \<Rightarrow> next_ref w | Some a \<Rightarrow> a), metadata = md,
           created_at = create_time rd, updated_at = create_time rd\<rparr>"
proof -
  let ?i = "generateId (id_time rd) (id_random rd)"
  let ?nc = "\<lparr>conv_id = ?i, messages = (case im of None \<Rightarrow> next_ref w | Some a \<Rightarrow> a),
              metadata = md, created_at = create_time rd, updated_at = create_time rd\<rparr>"
  let ?w1 = "register im md rd w"
  let ?L = "conversations ?w1"
  let ?now = "cleanup_time rd"
  let ?m1 = "filter (\<lambda>p. \<not> expired ?w1 ?now (snd p)) ?L"
  let ?S = "sort_key (\<lambda>(i, conv). updated_at conv) ?L"
  have L: "?L = conversations w @ [(?i, ?nc)]"
    using fresh by (simp add: register_conversations update_absent)
  have d: "distinct (map fst ?L)" using register_ok(1)[OF ok] by simp
  have le: "length ?L \<le> Suc (maxConversations w)" using register_ok(2)[OF ok] by simp
  have in1: "(?i, ?nc) \<in> set ?m1" using quick by (simp add: L expired_def)
  have "(?i, ?nc) \<in> set (conversations (cleanup ?now ?w1))"
  proof (cases "length ?m1 > maxConversations ?w1")
    case False
    then show ?thesis using in1 by (simp add: cleanup_conversations[OF d] Let_def)
  next
    case True
    have fl: "length ?m1 \<le> length ?L" by (rule length_filter_le)
    have T: "maxConversations w < length ?m1" using True by simp
    have len: "length ?m1 = Suc (maxConversations w)" "length ?L = Suc (maxConversations w)"
      using fl T le by linarith+
    have ne: "conversations w \<noteq> []" using len(2) cap by (auto simp: L)
    have "\<forall>y \<in> set (conversations w).
            (\<lambda>(i, conv). updated_at conv) y \<le> (\<lambda>(i, conv). updated_at conv) (?i, ?nc)"
      using mono by (auto simp: case_prod_beta)
    then have S: "?S = sort_key (\<lambda>(i, conv). updated_at conv) (conversations w) @ [(?i, ?nc)]"
      unfolding L by (rule sort_key_last)
    have ne': "sort_key (\<lambda>(i, conv). updated_at conv) (conversations w) \<noteq> []"
      using ne by (metis length_0_conv length_sort)
    then have tk: "take (Suc 0) ?S = [hd (sort_key (\<lambda>(i, conv). updated_at conv) (conversations w))]"
      unfolding S by (cases "sort_key (\<lambda>(i, conv). updated_at conv) (conversations w)") simp_all
    have "hd (sort_key (\<lambda>(i, conv). updated_at conv) (conversations w)) \<in> set (conversations w)"
      using ne' by (metis hd_in_set set_sort)
    then have "fst (hd (sort_key (\<lambda>(i, conv). updated_at conv) (conversations w))) \<noteq> ?i"
      using fresh by force
    then have "?i \<notin> fst ` set (take (length ?m1 - maxConversations ?w1) ?S)"
      using len by (simp add: tk)
    then show ?thesis
      using True in1 by (simp add: cleanup_conversations[OF d] Let_def)
  qed
  moreover have "distinct (map fst (conversations (cleanup ?now ?w1)))"
    by (rule cleanup_distinct[OF d])
  ultimately show ?thesis by (simp add: get_def create_def)
qed

subsection \<open>Eviction by count\<close>

lemma three_creates_evict_oldest:
  "ids (snd (create None None (reads_at 3000 ''c'')
        (run [Create None None (reads_at 1000 ''a''), Create None None (reads_at 2000 ''b'')]
           (ConversationMemoryManager\<lparr>maxConversations := 2\<rparr>)))) =
   [''conv_2000_b'', ''conv_3000_c'']"
proof -
  define w0 where "w0 = ConversationMemoryManager\<lparr>maxConversations := 2\<rparr>"
  define w1 where "w1 = snd (create None None (reads_at 1000 ''a'') w0)"
  define w2 where "w2 = snd (create None None (reads_at 2000 ''b'') w1)"
  have f0: "conversations w0 = []" "maxConversations w0 = 2" "maxAge w0 = 86400000" "next_ref w0 = 0"
    by (simp_all add: w0_def ConversationMemoryManager_def)
  have g: "generateId 1000 ''a'' = ''conv_1000_a''" "generateId 2000 ''b'' = ''conv_2000_b''"
    "generateId 3000 ''c'' = ''conv_3000_c''"
    by (simp_all add: generateId_def show_int_def show_nat.simps)
  have 1: "conversations w1 =
     [(''conv_1000_a'', \<lparr>conv_id = ''conv_1000_a'', messages = 0, metadata = None,
                          created_at = 1000, updated_at = 1000\<rparr>)]"
    unfolding w1_def using create_appends[of "reads_at 1000 ''a''" w0 None None]
    by (simp add: f0 g)
  have f1: "maxConversations w1 = 2" "maxAge w1 = 86400000"
    by (simp_all add: w1_def f0)
  have 2: "map stamp (conversations w2) = [(''conv_1000_a'', 1000), (''conv_2000_b'', 2000)]"
    unfolding w2_def using create_appends[of "reads_at 2000 ''b''" w1 None None]
    by (simp add: 1 f1 g stamp_def)
  have f2: "maxConversations w2 = 2" "maxAge w2 = 86400000"
    by (simp_all add: w2_def f1)
  let ?w3 = "register None None (reads_at 3000 ''c'') w2"
  have 3: "map stamp (conversations ?w3) =
     [(''conv_1000_a'', 1000), (''conv_2000_b'', 2000), (''conv_3000_c'', 3000)]"
    by (simp add: register_conversations stamp_update 2 g)
  have "ids (cleanup 3000 ?w3) = [''conv_2000_b'', ''conv_3000_c'']"
    unfolding ids_cleanup_stamps 3 by (simp add: f2 del: set_filter)
  then show ?thesis
    by (simp add: create_def w2_def w1_def w0_def)
qed

text \<open>
  Claim C1. Start from any store that tracks nothing (the constructor's store is one, with
  capacity 100) and run any sequence of calls of the public operations, \<open>create\<close> calls
  among them. Whatever \<open>create\<close> call comes next, immediately after it the size is at
  most the capacity; it is the smaller of the capacity and the number of conversations that are
  not older than the retention window, so that when nothing has expired and the count exceeds
  the capacity, the count-based pass brings it down to the capacity exactly. Nothing is
  retained that was not tracked just before the cleanup pass, and every conversation that the
  pass removed was updated no later than every conversation it retained: the retained ones are
  the most recently updated ones.
\<close>

theorem create_keeps_capacity_and_most_recent:
  assumes "conversations w0 = []"
  shows "let w = run calls w0;
             w1 = register im md rd w;
             w' = snd (create im md rd w)
         in size_store w' \<le> maxConversations w0 \<and>
            size_store w' =
              min (maxConversations w0)
                  (length (filter (\<lambda>p. \<not> expired w1 (cleanup_time rd) (snd p)) (conversations w1))) \<and>
            set (conversations w') \<subseteq> set (conversations w1) \<and>
            (\<forall>(i, e) \<in> set (conversations w1). \<forall>(j, r) \<in> set (conversations w').
               (i, e) \<notin> set (conversations w') \<longrightarrow> updated_at e \<le> updated_at r)"
proof -
  define w where "w = run calls w0"
  define w1 where "w1 = register im md rd w"
  define w' where "w' = snd (create im md rd w)"
  have ok: "store_ok w" and cap: "maxConversations w = maxConversations w0"
    using run_ok[OF empty_ok[OF assms], of calls] by (simp_all add: w_def)
  have w': "w' = cleanup (cleanup_time rd) w1" by (simp add: w'_def w1_def create_def)
  have d: "distinct (map fst (conversations w1))"
    and le: "length (conversations w1) \<le> Suc (maxConversations w1)"
    using register_ok[OF ok, of im md rd] by (simp_all add: w1_def)
  have cap1: "maxConversations w1 = maxConversations w0" by (simp add: w1_def cap)
  have sz: "size_store w' =
      min (maxConversations w0)
          (length (filter (\<lambda>p. \<not> expired w1 (cleanup_time rd) (snd p)) (conversations w1)))"
    unfolding w' size_store_def using cleanup_size[OF d le] by (simp add: cap1)
  have sub: "set (conversations w') \<subseteq> set (conversations w1)"
    unfolding w' by (rule cleanup_subset)
  have rec: "\<forall>(i, e) \<in> set (conversations w1). \<forall>(j, r) \<in> set (conversations w').
               (i, e) \<notin> set (conversations w') \<longrightarrow> updated_at e \<le> updated_at r"
    unfolding w' using cleanup_keeps_most_recent[OF d] by blast
  from sz have "size_store w' \<le> maxConversations w0" by simp
  with sz sub rec show ?thesis
    unfolding w_def[symmetric] Let_def w1_def[symmetric] w'_def[symmetric] by blast
qed

theorem create_keeps_capacity_and_most_recent_witness:
  "conversations (ConversationMemoryManager\<lparr>maxConversations := 2\<rparr>) = [] \<and>
   (let w = run [Create None None (reads_at 1000 ''a''), Create None None (reads_at 2000 ''b'')]
              (ConversationMemoryManager\<lparr>maxConversations := 2\<rparr>);
        w1 = register None None (reads_at 3000 ''c'') w;
        w' = snd (create None None (reads_at 3000 ''c'') w)
    in size_store w' \<le> maxConversations (ConversationMemoryManager\<lparr>maxConversations := 2\<rparr>) \<and>
       size_store w' =
         min (maxConversations (ConversationMemoryManager\<lparr>maxConversations := 2\<rparr>))
             (length (filter (\<lambda>p. \<not> expired w1 (cleanup_time (reads_at 3000 ''c'')) (snd p))
                (conversations w1))) \<and>
       set (conversations w') \<subseteq> set (conversations w1) \<and>
       (\<forall>(i, e) \<in> set (conversations w1). \<forall>(j, r) \<in> set (conversations w').
          (i, e) \<notin> set (conversations w') \<longrightarrow> updated_at e \<le> updated_at r) \<and>
       ids w' = [''conv_2000_b'', ''conv_3000_c''])"
proof -
  have h: "conversations (ConversationMemoryManager\<lparr>maxConversations := 2\<rparr>) = []"
    by (simp add: ConversationMemoryManager_def)
  show ?thesis
    using h three_creates_evict_oldest
      create_keeps_capacity_and_most_recent[OF h,
        of "[Create None None (reads_at 1000 ''a''), Create None None (reads_at 2000 ''b'')]"
           None None "reads_at 3000 ''c''"]
    unfolding Let_def by blast
qed

subsection \<open>Eviction by age\<close>

lemma remove_old_drops_expired:
  assumes "(i, c) \<in> set snap" "now - updated_at c > mx"
  shows "i \<notin> fst ` set (remove_old mx now snap m)"
  using assms unfolding remove_old_filter by force

lemma cleanup_drops_expired:
  assumes "(i, c) \<in> set (conversations w)" "expired w now c"
  shows "map_of (conversations (cleanup now w)) i = None"
proof -
  have "i \<notin> fst ` set (remove_old (maxAge w) now (conversations w) (conversations w))"
    using assms by (intro remove_old_drops_expired) (auto simp: expired_def)
  then have "i \<notin> fst ` set (conversations (cleanup now w))"
    by (auto simp: cleanup_def Let_def remove_ids_filter)
  then show ?thesis by (simp add: map_of_eq_None_iff)
qed

text \<open>
  Claim C5. A conversation that is tracked when \<open>create\<close> is called, and whose
  \<open>updated_at\<close> is older than the retention window at the clock reading of that call's
  cleanup pass, is absent after the call: \<open>get\<close> returns nothing for its id. The id that
  \<open>generateId\<close> hands to the new conversation is a different id (ids are unique).
\<close>

theorem expired_conversation_absent_after_create:
  assumes "get i w = Some c"
    and "cleanup_time rd - updated_at c > maxAge w"
    and "generateId (id_time rd) (id_random rd) \<noteq> i"
  shows "get i (snd (create im md rd w)) = None"
proof -
  let ?w1 = "register im md rd w"
  have "map_of (conversations ?w1) i = Some c"
    using assms(1,3) by (simp add: register_conversations update_conv' get_def)
  then have "(i, c) \<in> set (conversations ?w1)" by (rule map_of_SomeD)
  moreover have "expired ?w1 (cleanup_time rd) c" using assms(2) by (simp add: expired_def)
  ultimately show ?thesis
    by (simp add: get_def create_def cleanup_drops_expired)
qed

theorem expired_conversation_absent_after_create_witness:
  "get ''conv_0_a'' day_old_store =
     Some \<lparr>conv_id = ''conv_0_a'', messages = 0, metadata = None, created_at = 0, updated_at = 0\<rparr> \<and>
   cleanup_time (reads_at 90000000 ''b'') -
     updated_at \<lparr>conv_id = ''conv_0_a'', messages = 0, metadata = None, created_at = 0, updated_at = 0\<rparr>
     > maxAge day_old_store \<and>
   generateId (id_time (reads_at 90000000 ''b'')) (id_random (reads_at 90000000 ''b'')) \<noteq> ''conv_0_a'' \<and>
   get ''conv_0_a'' (snd (create None None (reads_at 90000000 ''b'') day_old_store)) = None"
proof -
  let ?c = "\<lparr>conv_id = ''conv_0_a'', messages = 0, metadata = None, created_at = 0, updated_at = 0\<rparr>"
  have h1: "get ''conv_0_a'' day_old_store = Some ?c"
    by (simp add: get_def day_old_store_def)
  have h2: "cleanup_time (reads_at 90000000 ''b'') - updated_at ?c > maxAge day_old_store"
    by (simp add: reads_at_def day_old_store_def ConversationMemoryManager_def)
  have h3: "generateId (id_time (reads_at 90000000 ''b'')) (id_random (reads_at 90000000 ''b''))
              \<noteq> ''conv_0_a''"
    by (simp add: reads_at_def generateId_def show_int_def show_nat.simps)
  show ?thesis
    using h1 h2 h3 expired_conversation_absent_after_create[OF h1 h2 h3] by blast
qed

subsection \<open>Untracked ids\<close>

text \<open>
  Claim C6. For an id the store does not track, no operation fails (none has an error
  result): \<open>get\<close> returns nothing, the array returned by \<open>getMessages\<close> is empty, and
  \<open>addMessage\<close>, \<open>updateMetadata\<close> and \<open>delete\<close> leave the whole state as it was.
\<close>

theorem untracked_id_is_a_no_op:
  assumes "i \<notin> fst ` set (conversations w)"
  shows "get i w = None \<and>
         arrays (snd (getMessages i w)) (fst (getMessages i w)) = [] \<and>
         addMessage i m now w = w \<and>
         updateMetadata i p now w = w \<and>
         delete i w = w"
proof -
  have n: "map_of (conversations w) i = None" using assms by (simp add: map_of_eq_None_iff)
  then show ?thesis
    using assms
    by (simp add: get_def getMessages_def new_array_def addMessage_def updateMetadata_def
        delete_def)
qed

theorem untracked_id_is_a_no_op_witness:
  "''does-not-exist'' \<notin> fst ` set (conversations day_old_store) \<and>
   get ''does-not-exist'' day_old_store = None \<and>
   arrays (snd (getMessages ''does-not-exist'' day_old_store))
          (fst (getMessages ''does-not-exist'' day_old_store)) = [] \<and>
   addMessage ''does-not-exist'' \<lparr>role = User, content = ''Test''\<rparr> 5 day_old_store = day_old_store \<and>
   updateMetadata ''does-not-exist'' [''test'' \<mapsto> JString ''value''] 5 day_old_store = day_old_store \<and>
   delete ''does-not-exist'' day_old_store = day_old_store"
proof -
  have h: "''does-not-exist'' \<notin> fst ` set (conversations day_old_store)"
    by (simp add: day_old_store_def)
  show ?thesis
    using h untracked_id_is_a_no_op[OF h] by blast
qed

subsection \<open>Metadata\<close>

text \<open>
  Claim C7. For a tracked conversation, \<open>updateMetadata\<close> replaces its metadata by the
  shallow merge of the old metadata and the partial mapping and sets \<open>updated_at\<close> to the
  clock reading: a key of the partial mapping gets the partial mapping's value (added or
  overwritten), every other key keeps its old value, and no other conversation changes. The
  example of the claim is the witness: created with \<open>{a: 1}\<close>, then \<open>{b: 2}\<close> applied gives
  \<open>{a: 1, b: 2}\<close>, then \<open>{a: 9}\<close> applied gives \<open>{a: 9, b: 2}\<close>.
\<close>

theorem updateMetadata_merges:
  assumes "get i w = Some c"
  shows "get i (updateMetadata i p now w) =
           Some (c\<lparr>metadata := Some (spread (metadata c) ++ p), updated_at := now\<rparr>) \<and>
         (\<forall>k. (spread (metadata c) ++ p) k =
               (case p k of Some v \<Rightarrow> Some v | None \<Rightarrow> spread (metadata c) k)) \<and>
         (\<forall>j. j \<noteq> i \<longrightarrow> get j (updateMetadata i p now w) = get j w)"
  using assms
  by (auto simp: get_def updateMetadata_def map_of_map_entry map_add_def split: option.splits)

theorem updateMetadata_merges_witness:
  "(let (i, w1) = create None (Some [''a'' \<mapsto> JNumber 1]) (reads_at 1000 ''x'') ConversationMemoryManager;
        w2 = updateMetadata i [''b'' \<mapsto> JNumber 2] 2000 w1;
        w3 = updateMetadata i [''a'' \<mapsto> JNumber 9] 3000 w2
    in map_option metadata (get i w1) = Some (Some [''a'' \<mapsto> JNumber 1]) \<and>
       map_option metadata (get i w2) = Some (Some [''a'' \<mapsto> JNumber 1, ''b'' \<mapsto> JNumber 2]) \<and>
       map_option updated_at (get i w2) = Some 2000 \<and>
       map_option metadata (get i w3) = Some (Some [''a'' \<mapsto> JNumber 9, ''b'' \<mapsto> JNumber 2]) \<and>
       map_option updated_at (get i w3) = Some 3000)"
proof -
  define i where "i = generateId 1000 ''x''"
  define w1 where "w1 = snd (create None (Some [''a'' \<mapsto> JNumber 1]) (reads_at 1000 ''x'') ConversationMemoryManager)"
  define c1 where "c1 = \<lparr>conv_id = i, messages = 0, metadata = Some [''a'' \<mapsto> JNumber 1],
        created_at = 1000, updated_at = 1000\<rparr>"
  have h1: "get i w1 = Some c1"
    unfolding i_def w1_def c1_def
    using get_create_on_empty[of ConversationMemoryManager "reads_at 1000 ''x''" None "Some [''a'' \<mapsto> JNumber 1]"]
    by (simp add: ConversationMemoryManager_def reads_at_def)
  define w2 where "w2 = updateMetadata i [''b'' \<mapsto> JNumber 2] 2000 w1"
  define c2 where "c2 = c1\<lparr>metadata := Some (spread (metadata c1) ++ [''b'' \<mapsto> JNumber 2]), updated_at := 2000\<rparr>"
  have h2: "get i w2 = Some c2"
    using updateMetadata_merges[OF h1, of "[''b'' \<mapsto> JNumber 2]" 2000] by (simp add: w2_def c2_def)
  define w3 where "w3 = updateMetadata i [''a'' \<mapsto> JNumber 9] 3000 w2"
  have h3: "get i w3 = Some (c2\<lparr>metadata := Some (spread (metadata c2) ++ [''a'' \<mapsto> JNumber 9]), updated_at := 3000\<rparr>)"
    using updateMetadata_merges[OF h2, of "[''a'' \<mapsto> JNumber 9]" 3000] by (simp add: w3_def)
  have m2: "spread (metadata c1) ++ [''b'' \<mapsto> JNumber 2] = [''a'' \<mapsto> JNumber 1, ''b'' \<mapsto> JNumber 2]"
    by (simp add: c1_def spread_def)
  have m3: "spread (metadata c2) ++ [''a'' \<mapsto> JNumber 9] = [''a'' \<mapsto> JNumber 9, ''b'' \<mapsto> JNumber 2]"
    by (auto simp: c2_def c1_def spread_def fun_eq_iff map_add_def)
  show ?thesis
    using h1 h2 h3 m2 m3
    by (simp add: case_prod_beta Let_def fst_create i_def[symmetric] w1_def[symmetric]
        w2_def[symmetric] w3_def[symmetric] c1_def c2_def)
qed

subsection \<open>Appending and reading back\<close>

lemma addMessage_tracked:
  assumes "get i w = Some c"
  shows "get i (addMessage i m now w) = Some (c\<lparr>updated_at := now\<rparr>)"
    and "arrays (addMessage i m now w) (messages c) = arrays w (messages c) @ [m]"
  using assms by (simp_all add: get_def addMessage_def push_def Let_def map_of_map_entry)

lemma run_addMessages:
  assumes "get i w = Some c"
  shows "\<exists>c'. get i (run (map (\<lambda>(m, now). AddMessage i m now) M) w) = Some c' \<and>
              messages c' = messages c \<and>
              arrays (run (map (\<lambda>(m, now). AddMessage i m now) M) w) (messages c) =
                arrays w (messages c) @ map fst M"
  using assms
proof (induction M arbitrary: w c)
  case Nil
  then show ?case by simp
next
  case (Cons a M)
  obtain m now where a: "a = (m, now)" by (cases a)
  let ?w = "addMessage i m now w"
  have g: "get i ?w = Some (c\<lparr>updated_at := now\<rparr>)"
    and ar: "arrays ?w (messages c) = arrays w (messages c) @ [m]"
    using addMessage_tracked[OF Cons.prems] by simp_all
  from Cons.IH[OF g] ar show ?case by (simp add: a)
qed

lemma getMessages_tracked:
  "get i w = Some c \<Longrightarrow> getMessages i w = (messages c, w)"
  by (simp add: get_def getMessages_def)

lemma create_fresh_conversation:
  assumes ok: "store_ok w"
    and g: "get (fst (create im md rd w)) (snd (create im md rd w)) = Some c"
  shows "messages c = (case im of None \<Rightarrow> next_ref w | Some a \<Rightarrow> a)"
proof -
  let ?i = "generateId (id_time rd) (id_random rd)"
  let ?w1 = "register im md rd w"
  have d: "distinct (map fst (conversations ?w1))" using register_ok[OF ok] by simp
  have "(?i, c) \<in> set (conversations (cleanup (cleanup_time rd) ?w1))"
    using g by (simp add: create_def get_def map_of_SomeD)
  then have "(?i, c) \<in> set (conversations ?w1)" using cleanup_subset by blast
  then have "map_of (conversations ?w1) ?i = Some c" using d by simp
  then show ?thesis by (auto simp: register_conversations update_conv')
qed

lemma create_arrays:
  "arrays (snd (create im md rd w)) =
     (case im of None \<Rightarrow> (arrays w)(next_ref w := []) | Some a \<Rightarrow> arrays w)"
  by (cases im) (simp_all add: create_def register_def new_array_def Let_def)

text \<open>
  Claim C8. In a store reached from an empty one by any calls, create a conversation with no
  initial messages (the argument omitted, or an empty array passed) that the store tracks
  after the call (it does under a monotone clock, lemma \<open>create_tracks_new_conversation\<close>).
  Append any finite sequence \<open>M\<close> of messages to it, in order, through \<open>addMessage\<close>.
  Then the array that \<open>getMessages\<close> returns holds exactly \<open>M\<close>, in order.
\<close>

theorem addMessage_getMessages_append_consistent:
  assumes "conversations w0 = []"
    and "case im of None \<Rightarrow> True | Some a \<Rightarrow> arrays (run calls w0) a = []"
    and "get (fst (create im md rd (run calls w0))) (snd (create im md rd (run calls w0))) \<noteq> None"
  shows "let (i, w1) = create im md rd (run calls w0);
             w2 = run (map (\<lambda>(m, now). AddMessage i m now) M) w1;
             (r, w3) = getMessages i w2
         in arrays w3 r = map fst M"
proof -
  define w where "w = run calls w0"
  define i where "i = fst (create im md rd w)"
  define w1 where "w1 = snd (create im md rd w)"
  have ok: "store_ok w" using run_ok[OF empty_ok[OF assms(1)], of calls] by (simp add: w_def)
  from assms(3) obtain c where c: "get i w1 = Some c" by (auto simp: i_def w1_def w_def)
  have mc: "messages c = (case im of None \<Rightarrow> next_ref w | Some a \<Rightarrow> a)"
    using create_fresh_conversation[OF ok] c by (simp add: i_def w1_def)
  have e: "arrays w1 (messages c) = []"
    using assms(2) by (cases im) (simp_all add: w1_def create_arrays mc w_def)
  obtain c' where c': "get i (run (map (\<lambda>(m, now). AddMessage i m now) M) w1) = Some c'"
    "messages c' = messages c"
    "arrays (run (map (\<lambda>(m, now). AddMessage i m now) M) w1) (messages c) = arrays w1 (messages c) @ map fst M"
    using run_addMessages[OF c, of M] by blast
  show ?thesis
    using c' e
    by (simp add: w_def[symmetric] case_prod_beta i_def[symmetric] w1_def[symmetric]
        getMessages_tracked[OF c'(1)])
qed

theorem addMessage_getMessages_append_consistent_witness:
  "conversations ConversationMemoryManager = [] \<and>
   get (fst (create None None (reads_at 1000 ''x'') (run [] ConversationMemoryManager)))
       (snd (create None None (reads_at 1000 ''x'') (run [] ConversationMemoryManager))) \<noteq> None \<and>
   (let (i, w1) = create None None (reads_at 1000 ''x'') (run [] ConversationMemoryManager);
        w2 = run (map (\<lambda>(m, now). AddMessage i m now)
                  [(\<lparr>role = User, content = ''First''\<rparr>, 2000 :: int),
                   (\<lparr>role = Assistant, content = ''Second''\<rparr>, 3000)]) w1;
        (r, w3) = getMessages i w2
    in arrays w3 r =
         map fst [(\<lparr>role = User, content = ''First''\<rparr>, 2000 :: int),
                  (\<lparr>role = Assistant, content = ''Second''\<rparr>, 3000)])"
proof -
  have h1: "conversations ConversationMemoryManager = []"
    by (simp add: ConversationMemoryManager_def)
  have h2: "case None of None \<Rightarrow> True | Some a \<Rightarrow> arrays (run [] ConversationMemoryManager) a = []"
    by simp
  have h3: "get (fst (create None None (reads_at 1000 ''x'') (run [] ConversationMemoryManager)))
       (snd (create None None (reads_at 1000 ''x'') (run [] ConversationMemoryManager))) \<noteq> None"
    using get_create_on_empty[of ConversationMemoryManager "reads_at 1000 ''x''" None None]
    by (simp add: fst_create ConversationMemoryManager_def reads_at_def)
  show ?thesis
    using h1 h3 addMessage_getMessages_append_consistent[OF h1 h2 h3] by blast
qed

section \<open>Properties of the tools\<close>

subsection \<open>Sending and storing\<close>

lemma send_and_store_request:
  "request (send_and_store msgs convId body m temp rd chat trailer w) =
     \<lparr>req_model = m,
      req_messages = arrays (addMessage convId \<lparr>role = User, content = body\<rparr> (user_time rd)
                               (push msgs \<lparr>role = User, content = body\<rparr> w)) msgs,
      req_temperature = temp\<rparr>"
  by (simp add: send_and_store_def Let_def split: sum.splits)

lemma send_and_store_ok:
  assumes "chat (request (send_and_store msgs convId body m temp rd chat trailer w)) = Inr reply"
  shows "result (send_and_store msgs convId body m temp rd chat trailer w) =
           Inr (content reply @ trailer convId)"
    and "after (send_and_store msgs convId body m temp rd chat trailer w) =
           addMessage convId reply (reply_time rd)
             (addMessage convId \<lparr>role = User, content = body\<rparr> (user_time rd)
                (push msgs \<lparr>role = User, content = body\<rparr> w))"
  using assms unfolding send_and_store_request
  by (simp_all add: send_and_store_def Let_def split: sum.splits)

lemma send_and_store_failed:
  assumes "chat (request (send_and_store msgs convId body m temp rd chat trailer w)) = Inl e"
  shows "result (send_and_store msgs convId body m temp rd chat trailer w) = Inl e"
  using assms unfolding send_and_store_request
  by (simp_all add: send_and_store_def Let_def split: sum.splits)

lemma ids_push [simp]: "ids (push r m w) = ids w"
  by (simp add: ids_def push_def)

lemma ids_new_array [simp]: "ids (snd (new_array init w)) = ids w"
  by (simp add: ids_def new_array_def)

lemma ids_addMessage [simp]: "ids (addMessage i m now w) = ids w"
  by (simp add: ids_def addMessage_def push_def Let_def split: option.splits)

lemma send_and_store_ids [simp]:
  "ids (after (send_and_store msgs convId body m temp rd chat trailer w)) = ids w"
  by (simp add: send_and_store_def Let_def split: sum.splits)

lemma start_conversation_eq:
  "start_conversation md rd msgs w =
     (msgs, generateId (id_time rd) (id_random rd),
      snd (create (Some (next_ref w)) (Some md) rd (snd (new_array [] w))))"
  by (simp add: start_conversation_def new_array_def create_def Let_def)

lemma start_conversation_ids:
  "ids (snd (snd (start_conversation md rd msgs w))) = ids (snd (create None (Some md) rd w'))"
  if "conversations w = conversations w'" "maxAge w = maxAge w'"
     "maxConversations w = maxConversations w'"
  unfolding start_conversation_eq snd_conv
  by (rule ids_create_cong) (simp_all add: new_array_def that)

lemma new_array_fields [simp]:
  "conversations (snd (new_array init w)) = conversations w"
  "maxAge (snd (new_array init w)) = maxAge w"
  "maxConversations (snd (new_array init w)) = maxConversations w"
  "fst (new_array init w) = next_ref w"
  "next_ref (snd (new_array init w)) = Suc (next_ref w)"
  "arrays (snd (new_array init w)) = (arrays w)(next_ref w := init)"
  by (simp_all add: new_array_def)

lemma getMessages_cases:
  "getMessages i w =
     (case get i w of Some conv \<Rightarrow> (messages conv, w) | None \<Rightarrow> (next_ref w, snd (new_array [] w)))"
  by (simp add: getMessages_def get_def new_array_def split: option.splits)

lemma get_new_array [simp]: "get i (snd (new_array init w)) = get i w"
  by (simp add: get_def)

lemma resolve_fresh:
  assumes "\<not> reusable cont w"
  shows "fst (snd (resolve_conversation cont md rd w)) = generateId (id_time rd) (id_random rd)"
    and "ids (snd (snd (resolve_conversation cont md rd w))) = ids (snd (create None (Some md) rd w))"
proof -
  let ?w1 = "snd (new_array [] w)"
  have "fst (snd (resolve_conversation cont md rd w)) = generateId (id_time rd) (id_random rd) \<and>
        ids (snd (snd (resolve_conversation cont md rd w))) = ids (snd (create None (Some md) rd w))"
  proof (cases "truthy cont")
    case False
    then have "resolve_conversation cont md rd w = start_conversation md rd (next_ref w) ?w1"
      by (simp add: resolve_conversation_def new_array_def Let_def)
    then show ?thesis
      using start_conversation_ids[of ?w1 w md rd "next_ref w"]
      by (simp add: start_conversation_eq)
  next
    case True
    then obtain token where t: "cont = Some token" "token \<noteq> []"
      by (auto simp: truthy_def split: option.splits)
    show ?thesis
    proof (cases "get token w")
      case None
      then have "resolve_conversation cont md rd w =
                 start_conversation md rd (Suc (next_ref w)) (snd (new_array [] ?w1))"
        using True t
        by (simp add: resolve_conversation_def Let_def case_prod_beta getMessages_cases)
      then show ?thesis
        using start_conversation_ids[of "snd (new_array [] ?w1)" w md rd "Suc (next_ref w)"]
        by (simp add: start_conversation_eq)
    next
      case (Some c)
      have e: "arrays w (messages c) = []"
        using assms t Some by (simp add: reusable_def stored_messages_def)
      then have "arrays ?w1 (messages c) = []" by simp
      then have "resolve_conversation cont md rd w = start_conversation md rd (messages c) ?w1"
        using True t Some
        by (simp add: resolve_conversation_def Let_def case_prod_beta getMessages_cases)
      then show ?thesis
        using start_conversation_ids[of ?w1 w md rd "messages c"]
        by (simp add: start_conversation_eq)
    qed
  qed
  then show "fst (snd (resolve_conversation cont md rd w)) = generateId (id_time rd) (id_random rd)"
    and "ids (snd (snd (resolve_conversation cont md rd w))) = ids (snd (create None (Some md) rd w))"
    by simp_all
qed

lemma reusableD:
  assumes "reusable cont w"
  obtains token c where "cont = Some token" "token \<noteq> []" "get token w = Some c"
    "arrays w (messages c) \<noteq> []" "truthy cont"
  using assms
  by (auto simp: reusable_def stored_messages_def truthy_def split: option.splits)

lemma heap_okD: "heap_ok w \<Longrightarrow> get i w = Some c \<Longrightarrow> messages c < next_ref w"
  by (auto simp: heap_ok_def get_def dest: map_of_SomeD)

lemma resolve_reuse:
  assumes "heap_ok w" "cont = Some token" "token \<noteq> []" "get token w = Some c"
    "arrays w (messages c) \<noteq> []"
  shows "resolve_conversation cont md rd w = (messages c, token, snd (new_array [] w))"
proof -
  have "messages c \<noteq> next_ref w" using heap_okD[OF assms(1,4)] by simp
  then have "arrays (snd (new_array [] w)) (messages c) = arrays w (messages c)" by simp
  then show ?thesis
    using assms(2-5)
    by (simp add: resolve_conversation_def Let_def case_prod_beta getMessages_cases truthy_def)
qed

lemma get_push [simp]: "get i (push r m w) = get i w"
  by (simp add: get_def push_def)

lemma arrays_push: "arrays (push r m w) = (arrays w)(r := arrays w r @ [m])"
  by (simp add: push_def)

lemma addMessage_other_array:
  assumes "get i w = Some c" "r \<noteq> messages c"
  shows "arrays (addMessage i m now w) r = arrays w r"
  using assms by (simp add: get_def addMessage_def push_def Let_def)

lemma send_and_store_alias:
  assumes g: "get convId w = Some c" and al: "messages c = msgs"
    and ok: "chat (request (send_and_store msgs convId body m temp rd chat trailer w)) = Inr reply"
  shows "arrays (after (send_and_store msgs convId body m temp rd chat trailer w)) msgs =
           arrays w msgs @ [\<lparr>role = User, content = body\<rparr>, \<lparr>role = User, content = body\<rparr>, reply]"
    and "req_messages (request (send_and_store msgs convId body m temp rd chat trailer w)) =
           arrays w msgs @ [\<lparr>role = User, content = body\<rparr>, \<lparr>role = User, content = body\<rparr>]"
    and "get convId (after (send_and_store msgs convId body m temp rd chat trailer w)) =
           Some (c\<lparr>updated_at := reply_time rd\<rparr>)"
proof -
  let ?u = "\<lparr>role = User, content = body\<rparr>"
  let ?w1 = "push msgs ?u w"
  let ?w2 = "addMessage convId ?u (user_time rd) ?w1"
  have g1: "get convId ?w1 = Some c" using g by simp
  have a1: "arrays ?w1 (messages c) = arrays w msgs @ [?u]" using al by (simp add: arrays_push)
  have g2: "get convId ?w2 = Some (c\<lparr>updated_at := user_time rd\<rparr>)"
    and a2: "arrays ?w2 (messages c) = arrays w msgs @ [?u, ?u]"
    using addMessage_tracked[OF g1, of ?u "user_time rd"] a1 by simp_all
  show "req_messages (request (send_and_store msgs convId body m temp rd chat trailer w)) =
           arrays w msgs @ [?u, ?u]"
    using a2 al by (simp add: send_and_store_request)
  have "arrays (addMessage convId reply (reply_time rd) ?w2) (messages c) =
          arrays w msgs @ [?u, ?u, reply]"
    using addMessage_tracked(2)[OF g2, of reply "reply_time rd"] a2 by simp
  then show "arrays (after (send_and_store msgs convId body m temp rd chat trailer w)) msgs =
           arrays w msgs @ [?u, ?u, reply]"
    using send_and_store_ok(2)[where chat = chat, OF ok] al by simp
  show "get convId (after (send_and_store msgs convId body m temp rd chat trailer w)) =
           Some (c\<lparr>updated_at := reply_time rd\<rparr>)"
    using addMessage_tracked(1)[OF g2, of reply "reply_time rd"]
      send_and_store_ok(2)[where chat = chat, OF ok] by simp
qed

lemma send_and_store_copy:
  assumes g: "get convId w = Some c" and al: "messages c \<noteq> msgs"
    and ok: "chat (request (send_and_store msgs convId body m temp rd chat trailer w)) = Inr reply"
  shows "arrays (after (send_and_store msgs convId body m temp rd chat trailer w)) (messages c) =
           arrays w (messages c) @ [\<lparr>role = User, content = body\<rparr>, reply]"
    and "req_messages (request (send_and_store msgs convId body m temp rd chat trailer w)) =
           arrays w msgs @ [\<lparr>role = User, content = body\<rparr>]"
    and "get convId (after (send_and_store msgs convId body m temp rd chat trailer w)) =
           Some (c\<lparr>updated_at := reply_time rd\<rparr>)"
proof -
  let ?u = "\<lparr>role = User, content = body\<rparr>"
  let ?w1 = "push msgs ?u w"
  let ?w2 = "addMessage convId ?u (user_time rd) ?w1"
  have g1: "get convId ?w1 = Some c" using g by simp
  have a1: "arrays ?w1 (messages c) = arrays w (messages c)" using al by (simp add: arrays_push)
  have m1: "arrays ?w1 msgs = arrays w msgs @ [?u]" by (simp add: arrays_push)
  have g2: "get convId ?w2 = Some (c\<lparr>updated_at := user_time rd\<rparr>)"
    and a2: "arrays ?w2 (messages c) = arrays w (messages c) @ [?u]"
    using addMessage_tracked[OF g1, of ?u "user_time rd"] a1 by simp_all
  have m2: "arrays ?w2 msgs = arrays w msgs @ [?u]"
    using addMessage_other_array[OF g1, of msgs ?u "user_time rd"] al m1 by simp
  show "req_messages (request (send_and_store msgs convId body m temp rd chat trailer w)) =
           arrays w msgs @ [?u]"
    using m2 by (simp add: send_and_store_request)
  have "arrays (addMessage convId reply (reply_time rd) ?w2) (messages c) =
          arrays w (messages c) @ [?u, reply]"
    using addMessage_tracked(2)[OF g2, of reply "reply_time rd"] a2 by simp
  then show "arrays (after (send_and_store msgs convId body m temp rd chat trailer w)) (messages c) =
           arrays w (messages c) @ [?u, reply]"
    using send_and_store_ok(2)[where chat = chat, OF ok] by simp
  show "get convId (after (send_and_store msgs convId body m temp rd chat trailer w)) =
           Some (c\<lparr>updated_at := reply_time rd\<rparr>)"
    using addMessage_tracked(1)[OF g2, of reply "reply_time rd"]
      send_and_store_ok(2)[where chat = chat, OF ok] by simp
qed


text \<open>The shape the step-based tools have once their definitions are unfolded.\<close>

lemma step_reuse:
  assumes E: "out =
      (let R = resolve_conversation cont md rd0 w; msgs = fst R; convId = fst (snd R); w1 = snd (snd R)
       in send_and_store msgs convId body m temp rd chat trailer
            (if length (arrays w1 msgs) = 0 \<and> B then push msgs sys w1 else w1))"
    and h: "heap_ok w" and t: "cont = Some token" "token \<noteq> []"
    and g: "get token w = Some c" and ne: "arrays w (messages c) \<noteq> []"
    and ok: "chat (request out) = Inr reply"
  shows "stored_messages token (after out) =
           stored_messages token w @
             [\<lparr>role = User, content = body\<rparr>, \<lparr>role = User, content = body\<rparr>, reply]"
    and "req_messages (request out) =
           stored_messages token w @ [\<lparr>role = User, content = body\<rparr>, \<lparr>role = User, content = body\<rparr>]"
    and "result out = Inr (content reply @ trailer token)"
    and "ids (after out) = ids w"
proof -
  have sm: "stored_messages token w = arrays w (messages c)"
    using g by (simp add: stored_messages_def)
  let ?w1 = "snd (new_array [] w)"
  have R: "resolve_conversation cont md rd0 w = (messages c, token, ?w1)"
    by (rule resolve_reuse[OF h t g ne])
  have "messages c \<noteq> next_ref w" using heap_okD[OF h g] by simp
  then have a: "arrays ?w1 (messages c) = arrays w (messages c)" by simp
  have E': "out = send_and_store (messages c) token body m temp rd chat trailer ?w1"
    using ne a by (simp add: E R Let_def)
  have g1: "get token ?w1 = Some c" using g by simp
  have ok': "chat (request (send_and_store (messages c) token body m temp rd chat trailer ?w1)) =
             Inr reply"
    using ok unfolding E' .
  show "stored_messages token (after out) =
           stored_messages token w @
             [\<lparr>role = User, content = body\<rparr>, \<lparr>role = User, content = body\<rparr>, reply]"
    unfolding E' sm
    using send_and_store_alias(1,3)[where chat = chat, OF g1 refl ok'] a
    by (simp add: stored_messages_def)
  show "req_messages (request out) =
           stored_messages token w @ [\<lparr>role = User, content = body\<rparr>, \<lparr>role = User, content = body\<rparr>]"
    unfolding E' sm using send_and_store_alias(2)[where chat = chat, OF g1 refl ok'] a by simp
  show "result out = Inr (content reply @ trailer token)"
    unfolding E' by (rule send_and_store_ok(1)[where chat = chat, OF ok'])
  show "ids (after out) = ids w"
    unfolding E' by simp
qed

lemma step_fresh:
  assumes E: "out =
      (let R = resolve_conversation cont md rd0 w; msgs = fst R; convId = fst (snd R); w1 = snd (snd R)
       in send_and_store msgs convId body m temp rd chat trailer
            (if length (arrays w1 msgs) = 0 \<and> B then push msgs sys w1 else w1))"
    and nr: "\<not> reusable cont w"
    and ok: "chat (request out) = Inr reply"
  shows "result out = Inr (content reply @ trailer (generateId (id_time rd0) (id_random rd0)))"
    and "ids (after out) = ids (snd (create None (Some md) rd0 w))"
proof -
  note f = resolve_fresh[OF nr, of md rd0]
  show "result out = Inr (content reply @ trailer (generateId (id_time rd0) (id_random rd0)))"
    using ok unfolding E Let_def f(1)[symmetric]
    by (rule send_and_store_ok(1)[where chat = chat])
  show "ids (after out) = ids (snd (create None (Some md) rd0 w))"
    unfolding E Let_def f(2)[symmetric] by simp
qed

lemma resolve_fresh_shape:
  assumes nr: "\<not> reusable cont w" and h: "heap_ok w"
  obtains msgs wx where
    "resolve_conversation cont md rd w = start_conversation md rd msgs wx"
    "conversations wx = conversations w" "maxAge wx = maxAge w"
    "maxConversations wx = maxConversations w" "msgs < next_ref wx"
proof -
  let ?w1 = "snd (new_array [] w)"
  show ?thesis
  proof (cases "truthy cont")
    case False
    then have "resolve_conversation cont md rd w = start_conversation md rd (next_ref w) ?w1"
      by (simp add: resolve_conversation_def new_array_def Let_def)
    then show ?thesis using that[of "next_ref w" ?w1] by simp
  next
    case True
    then obtain token where t: "cont = Some token" "token \<noteq> []"
      by (auto simp: truthy_def split: option.splits)
    show ?thesis
    proof (cases "get token w")
      case None
      then have "resolve_conversation cont md rd w =
                 start_conversation md rd (Suc (next_ref w)) (snd (new_array [] ?w1))"
        using True t
        by (simp add: resolve_conversation_def Let_def case_prod_beta getMessages_cases)
      then show ?thesis using that[of "Suc (next_ref w)" "snd (new_array [] ?w1)"] by simp
    next
      case (Some c)
      have "arrays w (messages c) = []"
        using nr t Some by (simp add: reusable_def stored_messages_def)
      then have "arrays ?w1 (messages c) = []" by simp
      then have "resolve_conversation cont md rd w = start_conversation md rd (messages c) ?w1"
        using True t Some
        by (simp add: resolve_conversation_def Let_def case_prod_beta getMessages_cases)
      moreover have "messages c < next_ref ?w1" using heap_okD[OF h Some] by simp
      ultimately show ?thesis using that[of "messages c" ?w1] by simp
    qed
  qed
qed

text \<open>
  The new conversation has its own array, so the messages pushed on the local array do not
  reach it, and the two \<open>addMessage\<close> calls find it: under the conditions \<open>orderly\<close> it is
  tracked when the call is over.
\<close>

lemma step_fresh_tracked:
  assumes E: "out =
      (let R = resolve_conversation cont md rd0 w; msgs = fst R; convId = fst (snd R); w1 = snd (snd R)
       in send_and_store msgs convId body m temp rd chat trailer
            (if length (arrays w1 msgs) = 0 \<and> B then push msgs sys w1 else w1))"
    and nr: "\<not> reusable cont w" and h: "heap_ok w" and ord: "orderly rd0 w"
    and ok: "chat (request out) = Inr reply"
  shows "tracked_as_new (generateId (id_time rd0) (id_random rd0)) md rd0 (after out)"
proof -
  let ?i = "generateId (id_time rd0) (id_random rd0)"
  obtain msgs wx where R: "resolve_conversation cont md rd0 w = start_conversation md rd0 msgs wx"
    and cx: "conversations wx = conversations w" "maxAge wx = maxAge w"
      "maxConversations wx = maxConversations w"
    and lt: "msgs < next_ref wx"
    by (rule resolve_fresh_shape[OF nr h])
  let ?a = "next_ref wx"
  let ?wy = "snd (new_array [] wx)"
  let ?w1 = "snd (create (Some ?a) (Some md) rd0 ?wy)"
  let ?c = "\<lparr>conv_id = ?i, messages = ?a, metadata = Some md,
             created_at = create_time rd0, updated_at = create_time rd0\<rparr>"
  let ?w2 = "if length (arrays ?w1 msgs) = 0 \<and> B then push msgs sys ?w1 else ?w1"
  have R': "resolve_conversation cont md rd0 w = (msgs, ?i, ?w1)"
    unfolding R by (rule start_conversation_eq)
  have g: "get ?i ?w1 = Some ?c"
    using create_tracks_new_conversation[of ?wy rd0 "Some ?a" "Some md"] ord
    by (simp add: orderly_def store_ok_def ids_def cx)
  have g2: "get ?i ?w2 = Some ?c" using g by simp
  have E': "out = send_and_store msgs ?i body m temp rd chat trailer ?w2"
    by (simp add: E R' Let_def)
  have ok': "chat (request (send_and_store msgs ?i body m temp rd chat trailer ?w2)) = Inr reply"
    using ok unfolding E' .
  have ne: "messages ?c \<noteq> msgs" using lt by simp
  have "get ?i (after out) = Some (?c\<lparr>updated_at := reply_time rd\<rparr>)"
    unfolding E' by (rule send_and_store_copy(3)[where chat = chat, OF g2 ne ok'])
  then show ?thesis by (simp add: tracked_as_new_def)
qed

lemma step_resolved:
  assumes E: "out =
      (let R = resolve_conversation cont md rd0 w; msgs = fst R; convId = fst (snd R); w1 = snd (snd R)
       in send_and_store msgs convId body m temp rd chat trailer
            (if length (arrays w1 msgs) = 0 \<and> B then push msgs sys w1 else w1))"
    and h: "heap_ok w" and ok: "chat (request out) = Inr reply"
    and tr: "\<And>i. reports (Inr (content reply @ trailer i)) i"
  shows "resolved_as_specified cont md rd0 w out"
proof (cases "reusable cont w")
  case True
  then obtain token c where t: "cont = Some token" "token \<noteq> []"
    "get token w = Some c" "arrays w (messages c) \<noteq> []" by (rule reusableD)
  show ?thesis
    using True t(1) step_reuse(3,4)[where chat = chat, OF E h t ok] tr
    by (simp add: resolved_as_specified_def)
next
  case False
  have "orderly rd0 w \<Longrightarrow> tracked_as_new (generateId (id_time rd0) (id_random rd0)) md rd0 (after out)"
    by (rule step_fresh_tracked[where chat = chat, OF E False h _ ok])
  then show ?thesis
    using False step_fresh[where chat = chat, OF E False ok] tr
    by (simp add: resolved_as_specified_def)
qed

lemma planner_execute_unfold:
  "planner_execute inp rd chat w =
     (let R = resolve_conversation (continuation_id inp) (planner_metadata inp) (new_conv rd) w;
          msgs = fst R; convId = fst (snd R); w1 = snd (snd R)
      in send_and_store msgs convId (planner_prompt inp) (model inp) (Some 0.6) rd chat
           (planner_trailer inp)
           (if length (arrays w1 msgs) = 0 \<and> True then
              push msgs planner_system w1
            else w1))"
  by (simp add: planner_execute_def Let_def case_prod_beta)

lemma debug_execute_unfold:
  "debug_execute inp rd chat w =
     (let R = resolve_conversation (continuation_id inp) (debug_metadata inp) (new_conv rd) w;
          msgs = fst R; convId = fst (snd R); w1 = snd (snd R)
      in send_and_store msgs convId (debug_prompt inp) (model inp) (Some 0.7) rd chat
           (debug_trailer inp)
           (if length (arrays w1 msgs) = 0 \<and> truthy (thinking_mode inp) then
              push msgs (debug_system inp) w1
            else w1))"
  by (simp add: debug_execute_def Let_def case_prod_beta)

lemma consensus_execute_unfold:
  "consensus_execute inp rd chat w =
     (let R = resolve_conversation (continuation_id inp) (consensus_metadata inp) (new_conv rd) w;
          msgs = fst R; convId = fst (snd R); w1 = snd (snd R)
      in send_and_store msgs convId (consensus_prompt inp) (modelToUse inp) (Some 0.7) rd chat
           (consensus_trailer inp)
           (if length (arrays w1 msgs) = 0 \<and> True then
              push msgs consensus_system w1
            else w1))"
  by (simp add: consensus_execute_def Let_def case_prod_beta)

lemma thinkdeep_execute_unfold:
  "thinkdeep_execute inp rd chat w =
     (let R = resolve_conversation (continuation_id inp) (thinkdeep_metadata inp) (new_conv rd) w;
          msgs = fst R; convId = fst (snd R); w1 = snd (snd R)
      in send_and_store msgs convId (thinkdeep_prompt inp) (model inp)
           (Some (thinkdeep_temperature inp)) rd chat (thinkdeep_trailer inp)
           (if length (arrays w1 msgs) = 0 \<and> True then
              push msgs (thinkdeep_system inp) w1
            else w1))"
  by (simp add: thinkdeep_execute_def Let_def case_prod_beta)

lemma codereview_execute_unfold:
  "codereview_execute inp rd chat w =
     (let R = resolve_conversation (continuation_id inp) (codereview_metadata inp) (new_conv rd) w;
          msgs = fst R; convId = fst (snd R); w1 = snd (snd R)
      in send_and_store msgs convId (codereview_prompt inp) (model inp) (Some 0.5) rd chat
           (codereview_trailer inp)
           (if length (arrays w1 msgs) = 0 \<and> True then
              push msgs (codereview_system inp) w1
            else w1))"
  by (simp add: codereview_execute_def Let_def case_prod_beta)

lemma precommit_execute_unfold:
  "precommit_execute inp rd chat w =
     (let R = resolve_conversation (continuation_id inp) (precommit_metadata inp) (new_conv rd) w;
          msgs = fst R; convId = fst (snd R); w1 = snd (snd R)
      in send_and_store msgs convId (precommit_prompt inp) (model inp) (Some 0.4) rd chat
           (precommit_trailer inp)
           (if length (arrays w1 msgs) = 0 \<and> True then
              push msgs precommit_system w1
            else w1))"
  by (simp add: precommit_execute_def Let_def case_prod_beta)

lemmas planner_reuse = step_reuse[OF planner_execute_unfold]
lemmas planner_fresh = step_fresh[OF planner_execute_unfold]
lemmas debug_reuse = step_reuse[OF debug_execute_unfold]
lemmas debug_fresh = step_fresh[OF debug_execute_unfold]
lemmas consensus_reuse = step_reuse[OF consensus_execute_unfold]
lemmas consensus_fresh = step_fresh[OF consensus_execute_unfold]


lemma planner_trailer_reports:
  "reports (Inr (content reply @ planner_trailer inp i)) i"
  unfolding reports_def planner_trailer_def sum.case sublist_def
  by (metis append.assoc)

lemma debug_trailer_reports:
  "reports (Inr (content reply @ debug_trailer inp i)) i"
  unfolding reports_def debug_trailer_def sum.case sublist_def
  by (metis append.assoc)

lemma consensus_trailer_reports:
  "reports (Inr (content reply @ consensus_trailer inp i)) i"
  unfolding reports_def consensus_trailer_def sum.case sublist_def Let_def
  by (metis append.assoc)

lemma thinkdeep_trailer_reports:
  "reports (Inr (content reply @ thinkdeep_trailer inp i)) i"
  unfolding reports_def thinkdeep_trailer_def sum.case sublist_def
  by (metis append.assoc)

lemma codereview_trailer_reports:
  "reports (Inr (content reply @ codereview_trailer inp i)) i"
  unfolding reports_def codereview_trailer_def sum.case sublist_def
  by (metis append.assoc)

lemma precommit_trailer_reports:
  "reports (Inr (content reply @ precommit_trailer inp i)) i"
  unfolding reports_def precommit_trailer_def sum.case sublist_def
  by (metis append.assoc)

lemma consensus_request_model:
  "req_model (request (consensus_execute inp rd chat w)) = modelToUse inp"
  by (simp add: consensus_execute_unfold Let_def send_and_store_request)

lemma chat_execute_unfold:
  "chat_execute inp rd chat w =
     (let R = chat_resolve_conversation (continuation_id inp) (chat_metadata inp) (new_conv rd) w;
          msgs = fst R; convId = fst (snd R); w1 = snd (snd R)
      in send_and_store msgs convId (contextPrompt inp) (model inp) (temperature inp) rd chat
           (chat_trailer inp)
           (if truthy (chat_thinking_mode inp) \<and> length (arrays w1 msgs) = 0 then
              push msgs (chat_system inp) w1
            else w1))"
  by (simp add: chat_execute_def Let_def case_prod_beta)

lemma chat_resolve_no_token:
  assumes "\<not> truthy cont"
  shows "chat_resolve_conversation cont md rd w =
         start_conversation md rd (next_ref w) (snd (new_array [] w))"
  using assms by (simp add: chat_resolve_conversation_def Let_def case_prod_beta)

lemma chat_resolve_fresh:
  assumes "\<not> reusable cont w"
  shows "fst (snd (chat_resolve_conversation cont md rd w)) = generateId (id_time rd) (id_random rd)"
    and "ids (snd (snd (chat_resolve_conversation cont md rd w))) = ids (snd (create None (Some md) rd w))"
proof -
  let ?w1 = "snd (new_array [] w)"
  have "fst (snd (chat_resolve_conversation cont md rd w)) = generateId (id_time rd) (id_random rd) \<and>
        ids (snd (snd (chat_resolve_conversation cont md rd w))) = ids (snd (create None (Some md) rd w))"
  proof (cases "truthy cont")
    case False
    show ?thesis
      unfolding chat_resolve_no_token[OF False]
      using start_conversation_ids[of ?w1 w md rd "next_ref w"]
      by (simp add: start_conversation_eq)
  next
    case True
    then obtain token where t: "cont = Some token" "token \<noteq> []"
      by (auto simp: truthy_def split: option.splits)
    show ?thesis
    proof (cases "get token w")
      case None
      then have "chat_resolve_conversation cont md rd w =
                 start_conversation md rd (next_ref w) (snd (new_array [] ?w1))"
        using True t
        by (simp add: chat_resolve_conversation_def Let_def case_prod_beta getMessages_cases)
      then show ?thesis
        using start_conversation_ids[of "snd (new_array [] ?w1)" w md rd "next_ref w"]
        by (simp add: start_conversation_eq)
    next
      case (Some c)
      have "arrays w (messages c) = []"
        using assms t Some by (simp add: reusable_def stored_messages_def)
      then have "arrays ?w1 (messages c) = []" by simp
      then have "chat_resolve_conversation cont md rd w =
                 start_conversation md rd (next_ref w) ?w1"
        using True t Some
        by (simp add: chat_resolve_conversation_def Let_def case_prod_beta getMessages_cases)
      then show ?thesis
        using start_conversation_ids[of ?w1 w md rd "next_ref w"]
        by (simp add: start_conversation_eq)
    qed
  qed
  then show "fst (snd (chat_resolve_conversation cont md rd w)) = generateId (id_time rd) (id_random rd)"
    and "ids (snd (snd (chat_resolve_conversation cont md rd w))) = ids (snd (create None (Some md) rd w))"
    by simp_all
qed

lemma chat_resolve_reuse:
  assumes "heap_ok w" "cont = Some token" "token \<noteq> []" "get token w = Some c"
    "arrays w (messages c) \<noteq> []"
  shows "chat_resolve_conversation cont md rd w =
         (Suc (next_ref w), token, snd (new_array (arrays w (messages c)) (snd (new_array [] w))))"
proof -
  have "messages c \<noteq> next_ref w" using heap_okD[OF assms(1,4)] by simp
  then have "arrays (snd (new_array [] w)) (messages c) = arrays w (messages c)" by simp
  then show ?thesis
    using assms(2-5)
    by (simp add: chat_resolve_conversation_def Let_def case_prod_beta getMessages_cases truthy_def)
qed

lemma chat_result:
  assumes ok: "chat (request (chat_execute inp rd chat w)) = Inr reply"
  shows "result (chat_execute inp rd chat w) =
     Inr (content reply @
          (if truthy (continuation_id inp) then []
           else ''\<newline>\<newline>---\<newline>*Conversation ID: '' @
                generateId (id_time (new_conv rd)) (id_random (new_conv rd)) @
                ''*\<newline>Use this continuation_id to continue this conversation.''))"
proof -
  let ?R = "chat_resolve_conversation (continuation_id inp) (chat_metadata inp) (new_conv rd) w"
  have r: "result (chat_execute inp rd chat w) = Inr (content reply @ chat_trailer inp (fst (snd ?R)))"
    using ok unfolding chat_execute_unfold Let_def
    by (rule send_and_store_ok(1)[where chat = chat])
  show ?thesis
  proof (cases "truthy (continuation_id inp)")
    case True
    then show ?thesis using r by (simp add: chat_trailer_def)
  next
    case False
    then show ?thesis
      using r by (simp add: chat_trailer_def chat_resolve_no_token start_conversation_eq)
  qed
qed

lemma chat_fresh_ids:
  assumes nr: "\<not> reusable (continuation_id inp) w"
  shows "ids (after (chat_execute inp rd chat w)) =
         ids (snd (create None (Some (chat_metadata inp)) (new_conv rd) w))"
  unfolding chat_execute_unfold Let_def
  using chat_resolve_fresh(2)[OF nr, of "chat_metadata inp" "new_conv rd"] by simp

lemma chat_reuse:
  assumes h: "heap_ok w" and t: "continuation_id inp = Some token" "token \<noteq> []"
    and g: "get token w = Some c" and ne: "arrays w (messages c) \<noteq> []"
    and ok: "chat (request (chat_execute inp rd chat w)) = Inr reply"
  shows "stored_messages token (after (chat_execute inp rd chat w)) =
           stored_messages token w @ [\<lparr>role = User, content = contextPrompt inp\<rparr>, reply]"
    and "req_messages (request (chat_execute inp rd chat w)) =
           stored_messages token w @ [\<lparr>role = User, content = contextPrompt inp\<rparr>]"
proof -
  have sm: "stored_messages token w = arrays w (messages c)"
    using g by (simp add: stored_messages_def)
  let ?w1 = "snd (new_array [] w)"
  let ?wb = "snd (new_array (arrays w (messages c)) ?w1)"
  let ?copy = "Suc (next_ref w)"
  have lt: "messages c < next_ref w" by (rule heap_okD[OF h g])
  have ab: "arrays ?wb (messages c) = arrays w (messages c)" "arrays ?wb ?copy = arrays w (messages c)"
    using lt by simp_all
  have E: "chat_execute inp rd chat w =
           send_and_store ?copy token (contextPrompt inp) (model inp) (temperature inp) rd chat
             (chat_trailer inp) ?wb"
    using ne ab(2)
    by (simp add: chat_execute_unfold chat_resolve_reuse[OF h t g ne] Let_def)
  have g1: "get token ?wb = Some c" using g by simp
  have nc: "messages c \<noteq> ?copy" using lt by simp
  have ok': "chat (request (send_and_store ?copy token (contextPrompt inp) (model inp)
              (temperature inp) rd chat (chat_trailer inp) ?wb)) = Inr reply"
    using ok unfolding E .
  show "stored_messages token (after (chat_execute inp rd chat w)) =
           stored_messages token w @ [\<lparr>role = User, content = contextPrompt inp\<rparr>, reply]"
    unfolding E sm
    using send_and_store_copy(1,3)[where chat = chat, OF g1 nc ok'] ab
    by (simp add: stored_messages_def)
  show "req_messages (request (chat_execute inp rd chat w)) =
           stored_messages token w @ [\<lparr>role = User, content = contextPrompt inp\<rparr>]"
    unfolding E sm using send_and_store_copy(2)[where chat = chat, OF g1 nc ok'] ab by simp
qed

lemma tool_reads_at_simps [simp]:
  "new_conv (tool_reads_at t s) = reads_at t s"
  "user_time (tool_reads_at t s) = t" "reply_time (tool_reads_at t s) = t"
  by (simp_all add: tool_reads_at_def)

lemma resolved_planner:
  assumes "heap_ok w" "chat (request (planner_execute p rd chat w)) = Inr reply"
  shows "resolved_as_specified (continuation_id p) (planner_metadata p) (new_conv rd) w
           (planner_execute p rd chat w)"
  by (rule step_resolved[where chat = chat, OF planner_execute_unfold assms
        planner_trailer_reports])

lemma resolved_debug:
  assumes "heap_ok w" "chat (request (debug_execute d rd chat w)) = Inr reply"
  shows "resolved_as_specified (continuation_id d) (debug_metadata d) (new_conv rd) w
           (debug_execute d rd chat w)"
  by (rule step_resolved[where chat = chat, OF debug_execute_unfold assms
        debug_trailer_reports])

lemma resolved_thinkdeep:
  assumes "heap_ok w" "chat (request (thinkdeep_execute t rd chat w)) = Inr reply"
  shows "resolved_as_specified (continuation_id t) (thinkdeep_metadata t) (new_conv rd) w
           (thinkdeep_execute t rd chat w)"
  by (rule step_resolved[where chat = chat, OF thinkdeep_execute_unfold assms
        thinkdeep_trailer_reports])

lemma resolved_consensus:
  assumes "heap_ok w" "chat (request (consensus_execute c rd chat w)) = Inr reply"
  shows "resolved_as_specified (continuation_id c) (consensus_metadata c) (new_conv rd) w
           (consensus_execute c rd chat w)"
  by (rule step_resolved[where chat = chat, OF consensus_execute_unfold assms
        consensus_trailer_reports])

lemma resolved_codereview:
  assumes "heap_ok w" "chat (request (codereview_execute c rd chat w)) = Inr reply"
  shows "resolved_as_specified (continuation_id c) (codereview_metadata c) (new_conv rd) w
           (codereview_execute c rd chat w)"
  by (rule step_resolved[where chat = chat, OF codereview_execute_unfold assms
        codereview_trailer_reports])

lemma resolved_precommit:
  assumes "heap_ok w" "chat (request (precommit_execute p rd chat w)) = Inr reply"
  shows "resolved_as_specified (continuation_id p) (precommit_metadata p) (new_conv rd) w
           (precommit_execute p rd chat w)"
  by (rule step_resolved[where chat = chat, OF precommit_execute_unfold assms
        precommit_trailer_reports])

lemma heap_ok_one_turn: "heap_ok one_turn_store"
  by (simp add: heap_ok_def one_turn_store_def)

lemma one_turn_facts:
  "get ''conv_1000_a'' one_turn_store =
     Some \<lparr>conv_id = ''conv_1000_a'', messages = 0, metadata = None,
           created_at = 1000, updated_at = 1500\<rparr>"
  "arrays one_turn_store 0 =
     [\<lparr>role = User, content = ''Plan the migration''\<rparr>,
      \<lparr>role = Assistant, content = ''Start with the schema''\<rparr>]"
  by (simp_all add: one_turn_store_def get_def)

lemma one_turn_stored:
  "stored_messages ''conv_1000_a'' one_turn_store =
     [\<lparr>role = User, content = ''Plan the migration''\<rparr>,
      \<lparr>role = Assistant, content = ''Start with the schema''\<rparr>]"
  by (simp add: stored_messages_def one_turn_facts)

subsection \<open>Appending to a reused conversation\<close>

text \<open>
  Claim C2. The claim: a tool call that reuses a non-empty conversation appends exactly the
  user message and the reply, so that the stored sequence is the prior one extended by those
  two and no message appears twice. In the step-based tools the local \<open>messages\<close> array is
  the stored array itself, so \<open>messages.push(userMessage)\<close> followed by
  \<open>addMessage(convId, userMessage)\<close> stores the user message twice (lemma \<open>step_reuse\<close>,
  for every input); the chat tool copies the array and stores it once (lemma
  \<open>chat_reuse\<close>). Evaluated here: the planner continuing a conversation of two messages
  leaves five stored messages, the user message twice, and sends the duplicate to the backend.
\<close>

theorem planner_reuse_stores_user_message_twice:
  "(let out = planner_execute follow_up_plan (tool_reads_at 5000 ''n'') canned_backend one_turn_store;
        before = [\<lparr>role = User, content = ''Plan the migration''\<rparr>,
                  \<lparr>role = Assistant, content = ''Start with the schema''\<rparr>];
        userMessage = \<lparr>role = User, content = planner_prompt follow_up_plan\<rparr>;
        reply = \<lparr>role = Assistant, content = ''Test response''\<rparr>
    in stored_messages ''conv_1000_a'' one_turn_store = before \<and>
       stored_messages ''conv_1000_a'' (after out) = before @ [userMessage, userMessage, reply] \<and>
       stored_messages ''conv_1000_a'' (after out) \<noteq> before @ [userMessage, reply] \<and>
       req_messages (request out) = before @ [userMessage, userMessage])"
proof -
  let ?c = "\<lparr>conv_id = ''conv_1000_a'', messages = 0, metadata = None,
           created_at = 1000, updated_at = 1500\<rparr>"
  let ?out = "planner_execute follow_up_plan (tool_reads_at 5000 ''n'') canned_backend one_turn_store"
  have t: "continuation_id follow_up_plan = Some ''conv_1000_a''" "''conv_1000_a'' \<noteq> []"
    by (simp_all add: follow_up_plan_def)
  have ne: "arrays one_turn_store (messages ?c) \<noteq> []" by (simp add: one_turn_facts)
  have ok: "canned_backend (request ?out) = Inr \<lparr>role = Assistant, content = ''Test response''\<rparr>"
    by (simp add: canned_backend_def)
  note r = planner_reuse[where chat = canned_backend, OF heap_ok_one_turn t one_turn_facts(1) ne ok]
  show ?thesis
    unfolding Let_def r(1) r(2) one_turn_stored by simp
qed

subsection \<open>Conversation resolution\<close>

text \<open>
  Claim C4. For every call of a step-based tool (planner, debug, thinkdeep, consensus,
  codereview, precommit) on a store whose arrays are allocated, with a backend that answers
  the call's request: if no continuation token is supplied (absent or empty), or the token
  resolves to no conversation or to one with no stored message, then a conversation is
  created (the ids tracked after the call are those a \<open>create\<close> call leaves), the call
  returns a text, not an error, its trailer reports the id that \<open>create\<close> returned, and
  when the store is within capacity, the id is new and the clock does not run backwards, the
  store tracks the new conversation under that id after the call; if the token resolves to a
  conversation with at least one stored message, the trailer reports that token and the
  tracked ids are unchanged.
\<close>

theorem step_tools_resolve_conversation:
  assumes "heap_ok w"
    and "chat (request (execute call rd chat w)) = Inr reply"
  shows "resolved_as_specified (call_token call) (call_metadata call) (new_conv rd) w
           (execute call rd chat w)"
proof (cases call)
  case (Planner inp)
  then show ?thesis
    using resolved_planner[where chat = chat, OF assms(1), of inp rd reply] assms(2) by simp
next
  case (Debug inp)
  then show ?thesis
    using resolved_debug[where chat = chat, OF assms(1), of inp rd reply] assms(2) by simp
next
  case (Thinkdeep inp)
  then show ?thesis
    using resolved_thinkdeep[where chat = chat, OF assms(1), of inp rd reply] assms(2) by simp
next
  case (Consensus inp)
  then show ?thesis
    using resolved_consensus[where chat = chat, OF assms(1), of inp rd reply] assms(2) by simp
next
  case (Codereview inp)
  then show ?thesis
    using resolved_codereview[where chat = chat, OF assms(1), of inp rd reply] assms(2) by simp
next
  case (Precommit inp)
  then show ?thesis
    using resolved_precommit[where chat = chat, OF assms(1), of inp rd reply] assms(2) by simp
qed

theorem step_tools_resolve_conversation_witness:
  "heap_ok one_turn_store \<and>
   canned_backend (request (execute (Planner follow_up_plan) (tool_reads_at 5000 ''n'')
      canned_backend one_turn_store)) = Inr \<lparr>role = Assistant, content = ''Test response''\<rparr> \<and>
   canned_backend (request (execute (Thinkdeep first_thought) (tool_reads_at 5000 ''n'')
      canned_backend one_turn_store)) = Inr \<lparr>role = Assistant, content = ''Test response''\<rparr> \<and>
   canned_backend (request (execute (Precommit stale_validation) (tool_reads_at 5000 ''n'')
      canned_backend one_turn_store)) = Inr \<lparr>role = Assistant, content = ''Test response''\<rparr> \<and>
   reusable (call_token (Planner follow_up_plan)) one_turn_store \<and>
   reports (result (execute (Planner follow_up_plan) (tool_reads_at 5000 ''n'') canned_backend
      one_turn_store)) ''conv_1000_a'' \<and>
   ids (after (execute (Planner follow_up_plan) (tool_reads_at 5000 ''n'') canned_backend
      one_turn_store)) = ids one_turn_store \<and>
   orderly (reads_at 5000 ''n'') one_turn_store \<and>
   \<not> reusable (call_token (Thinkdeep first_thought)) one_turn_store \<and>
   reports (result (execute (Thinkdeep first_thought) (tool_reads_at 5000 ''n'') canned_backend
      one_turn_store)) ''conv_5000_n'' \<and>
   tracked_as_new ''conv_5000_n'' (thinkdeep_metadata first_thought) (reads_at 5000 ''n'')
     (after (execute (Thinkdeep first_thought) (tool_reads_at 5000 ''n'') canned_backend
        one_turn_store)) \<and>
   \<not> reusable (call_token (Precommit stale_validation)) one_turn_store \<and>
   reports (result (execute (Precommit stale_validation) (tool_reads_at 5000 ''n'')
      canned_backend one_turn_store)) ''conv_5000_n'' \<and>
   tracked_as_new ''conv_5000_n'' (precommit_metadata stale_validation) (reads_at 5000 ''n'')
     (after (execute (Precommit stale_validation) (tool_reads_at 5000 ''n'') canned_backend
        one_turn_store))"
proof -
  have b: "\<And>req. canned_backend req = Inr \<lparr>role = Assistant, content = ''Test response''\<rparr>"
    by (simp add: canned_backend_def)
  have r1: "reusable (call_token (Planner follow_up_plan)) one_turn_store"
    by (simp add: reusable_def follow_up_plan_def one_turn_stored)
  have c1: "continuation_id follow_up_plan = Some ''conv_1000_a''"
    by (simp add: follow_up_plan_def)
  have n2: "\<not> reusable (call_token (Thinkdeep first_thought)) one_turn_store"
    by (simp add: reusable_def first_thought_def)
  have n3: "\<not> reusable (call_token (Precommit stale_validation)) one_turn_store"
    by (simp add: reusable_def stale_validation_def stored_messages_def get_def one_turn_store_def)
  have g: "generateId 5000 ''n'' = ''conv_5000_n''"
    by (simp add: generateId_def show_int_def show_nat.simps)
  have o: "orderly (reads_at 5000 ''n'') one_turn_store"
    by (simp add: orderly_def store_ok_def ids_def g one_turn_store_def
        ConversationMemoryManager_def)
  show ?thesis
    using heap_ok_one_turn b r1 n2 n3 o
      step_tools_resolve_conversation[where chat = canned_backend, OF heap_ok_one_turn b,
        of "Planner follow_up_plan" "tool_reads_at 5000 ''n''"]
      step_tools_resolve_conversation[where chat = canned_backend, OF heap_ok_one_turn b,
        of "Thinkdeep first_thought" "tool_reads_at 5000 ''n''"]
      step_tools_resolve_conversation[where chat = canned_backend, OF heap_ok_one_turn b,
        of "Precommit stale_validation" "tool_reads_at 5000 ''n''"]
    by (simp add: resolved_as_specified_def c1 g)
qed

subsection \<open>The model a consensus call targets\<close>

text \<open>
  Claim C9, as amended. For a consensus call with \<open>step_number > 1\<close>, with
  \<open>current_model_index\<close> (0 when omitted) below the number of participants, and with a
  non-empty model identifier for the participant at that index, the request sent to the
  backend targets that participant's model identifier.
\<close>

theorem consensus_targets_participant_model:
  assumes "step_number inp > 1"
    and "or_default 0 (current_model_index inp) < length (models inp)"
    and "config_model (models inp ! or_default 0 (current_model_index inp)) \<noteq> []"
  shows "req_model (request (consensus_execute inp rd chat w)) =
         config_model (models inp ! or_default 0 (current_model_index inp))"
  using assms by (simp add: consensus_request_model modelToUse_def Let_def)

lemma two_participants_simps:
  "step_number (two_participants m) = 2"
  "or_default 0 (current_model_index (two_participants m)) = 0"
  "length (models (two_participants m)) = 2"
  "config_model (models (two_participants m) ! 0) = m"
  by (simp_all add: two_participants_def or_default_def)

theorem consensus_targets_participant_model_witness:
  "step_number (two_participants ''llama3:latest'') > 1 \<and>
   or_default 0 (current_model_index (two_participants ''llama3:latest''))
     < length (models (two_participants ''llama3:latest'')) \<and>
   config_model (models (two_participants ''llama3:latest'') !
     or_default 0 (current_model_index (two_participants ''llama3:latest''))) \<noteq> [] \<and>
   req_model (request (consensus_execute (two_participants ''llama3:latest'')
     (tool_reads_at 5000 ''n'') canned_backend ConversationMemoryManager)) = ''llama3:latest''"
proof -
  have h1: "step_number (two_participants ''llama3:latest'') > 1"
    by (simp add: two_participants_simps)
  have h2: "or_default 0 (current_model_index (two_participants ''llama3:latest''))
     < length (models (two_participants ''llama3:latest''))"
    by (simp add: two_participants_simps)
  have h3: "config_model (models (two_participants ''llama3:latest'') !
     or_default 0 (current_model_index (two_participants ''llama3:latest''))) \<noteq> []"
    by (simp add: two_participants_simps)
  show ?thesis
    using h1 h2 h3
      consensus_targets_participant_model[OF h1 h2 h3, of "tool_reads_at 5000 ''n''"
        canned_backend ConversationMemoryManager]
    by (simp add: two_participants_simps)
qed

text \<open>
  The claim as stated (no condition on the identifier) fails: \<open>?.model || "qwen2.5:latest"\<close>
  replaces an empty identifier, so with two participants, step 2 and index 0, a participant
  whose model is the empty string is not the target of the request.
\<close>

theorem consensus_empty_model_falls_back:
  "step_number (two_participants []) > 1 \<and>
   or_default 0 (current_model_index (two_participants [])) < length (models (two_participants [])) \<and>
   req_model (request (consensus_execute (two_participants []) (tool_reads_at 5000 ''n'')
     canned_backend ConversationMemoryManager)) = ''qwen2.5:latest'' \<and>
   req_model (request (consensus_execute (two_participants []) (tool_reads_at 5000 ''n'')
     canned_backend ConversationMemoryManager)) \<noteq>
     config_model (models (two_participants []) ! or_default 0 (current_model_index (two_participants [])))"
  by (simp add: consensus_request_model modelToUse_def Let_def two_participants_simps)

subsection \<open>The trailer of the chat tool\<close>

text \<open>
  Claim C10. For a chat call whose backend answers: if a continuation id is supplied (it
  passes \<open>if (continuation_id)\<close>), the returned text is the reply's content and nothing
  else, so it carries no conversation id, also when the token resolves to nothing and a
  conversation is created in its place; if none is supplied, the text is the reply's content
  followed by the \<open>Conversation ID\<close> trailer with the id of the created conversation.
\<close>

theorem chat_reports_id_only_without_token:
  assumes "chat (request (chat_execute inp rd chat w)) = Inr reply"
  shows "(truthy (continuation_id inp) \<longrightarrow>
            result (chat_execute inp rd chat w) = Inr (content reply)) \<and>
         (\<not> truthy (continuation_id inp) \<longrightarrow>
            result (chat_execute inp rd chat w) =
              Inr (content reply @ ''\<newline>\<newline>---\<newline>*Conversation ID: '' @
                   generateId (id_time (new_conv rd)) (id_random (new_conv rd)) @
                   ''*\<newline>Use this continuation_id to continue this conversation.'')) \<and>
         (\<not> reusable (continuation_id inp) w \<longrightarrow>
            ids (after (chat_execute inp rd chat w)) =
              ids (snd (create None (Some (chat_metadata inp)) (new_conv rd) w)))"
  using chat_result[where chat = chat, OF assms] chat_fresh_ids[of inp w rd chat]
  by simp

theorem chat_reports_id_only_without_token_witness:
  "canned_backend (request (chat_execute stale_chat (tool_reads_at 5000 ''n'') canned_backend
      ConversationMemoryManager)) = Inr \<lparr>role = Assistant, content = ''Test response''\<rparr> \<and>
   truthy (continuation_id stale_chat) \<and>
   \<not> reusable (continuation_id stale_chat) ConversationMemoryManager \<and>
   result (chat_execute stale_chat (tool_reads_at 5000 ''n'') canned_backend ConversationMemoryManager) =
     Inr ''Test response'' \<and>
   ids (after (chat_execute stale_chat (tool_reads_at 5000 ''n'') canned_backend
      ConversationMemoryManager)) =
     ids (snd (create None (Some (chat_metadata stale_chat)) (new_conv (tool_reads_at 5000 ''n''))
       ConversationMemoryManager))"
proof -
  have ok: "canned_backend (request (chat_execute stale_chat (tool_reads_at 5000 ''n'') canned_backend
      ConversationMemoryManager)) = Inr \<lparr>role = Assistant, content = ''Test response''\<rparr>"
    by (simp add: canned_backend_def)
  have t: "truthy (continuation_id stale_chat)"
    by (simp add: stale_chat_def truthy_def)
  have nr: "\<not> reusable (continuation_id stale_chat) ConversationMemoryManager"
    by (simp add: stale_chat_def reusable_def stored_messages_def get_def
        ConversationMemoryManager_def)
  show ?thesis
    using ok t nr chat_reports_id_only_without_token[where chat = canned_backend, OF ok]
    by simp
qed

section \<open>Properties of the configuration\<close>


lemma strip_unmatched: "find (\<lambda>p. prefix p s) ps = None \<Longrightarrow> strip ps s = s"
  by (subst strip.simps) simp

lemma find_prefix_other_head:
  "\<forall>p \<in> set ps. p \<noteq> [] \<and> hd p \<noteq> c \<Longrightarrow> find (\<lambda>p. prefix p (c # cs)) ps = None"
  by (induction ps) (auto simp: neq_Nil_conv)

lemma white_space_heads:
  "\<forall>p \<in> set white_space. p \<noteq> [] \<and>
     hd p \<in> set [CHR 0x09, CHR 0x0A, CHR 0x0B, CHR 0x0C, CHR 0x0D, CHR 0x20,
                  CHR 0xC2, CHR 0xE1, CHR 0xE2, CHR 0xE3, CHR 0xEF]"
  by (simp add: white_space_def)

lemma is_digit_head:
  "is_digit c \<Longrightarrow> c \<notin> set [CHR 0x09, CHR 0x0A, CHR 0x0B, CHR 0x0C, CHR 0x0D, CHR 0x20,
                               CHR 0xC2, CHR 0xE1, CHR 0xE2, CHR 0xE3, CHR 0xEF]"
  by (auto simp: is_digit_def)

lemma strip_digit: "is_digit c \<Longrightarrow> strip white_space (c # cs) = c # cs"
proof -
  assume "is_digit c"
  then have "\<forall>p \<in> set white_space. p \<noteq> [] \<and> hd p \<noteq> c"
    using white_space_heads is_digit_head by blast
  then show ?thesis by (intro strip_unmatched find_prefix_other_head)
qed

lemma parseInt_one: "parseInt ''1'' = Number 1"
proof -
  have "is_digit CHR ''1''" by (simp add: is_digit_def)
  then have "strip white_space ''1'' = ''1''" by (rule strip_digit)
  then show ?thesis
    by (simp add: parseInt_def is_digit_def digit_value_def Let_def to_number_def
        nearest_double_def)
qed

lemma configured_one: "config_maxConversations (fst (startup [''MAX_CONVERSATIONS'' \<mapsto> ''1''])) = Number 1"
  by (simp add: startup_def loadConfig_def env_or_def parseInt_one)

lemma two_creates_size: "size_store (run [Create None None (reads_at 1000 ''a''), Create None None (reads_at 2000 ''b'')]
      (snd (startup [''MAX_CONVERSATIONS'' \<mapsto> ''1'']))) = 2"
proof -
  define w1 where "w1 = snd (create None None (reads_at 1000 ''a'') ConversationMemoryManager)"
  have 1: "conversations w1 =
     [(''conv_1000_a'', \<lparr>conv_id = ''conv_1000_a'', messages = 0, metadata = None,
                          created_at = 1000, updated_at = 1000\<rparr>)]"
    unfolding w1_def
    using create_appends[of "reads_at 1000 ''a''" ConversationMemoryManager None None]
    by (simp add: ConversationMemoryManager_def generateId_def show_int_def show_nat.simps)
  have m: "maxConversations w1 = 100" "maxAge w1 = 86400000"
    by (simp_all add: w1_def ConversationMemoryManager_def)
  have "length (conversations (snd (create None None (reads_at 2000 ''b'') w1))) = 2"
    using create_appends[of "reads_at 2000 ''b''" w1 None None]
    by (simp add: 1 m generateId_def show_int_def show_nat.simps)
  then show ?thesis by (simp add: startup_def size_store_def w1_def)
qed

lemma digit_facts:
  assumes "d < 10"
  shows "is_digit (''0123456789'' ! d)" "digit_value (''0123456789'' ! d) = d"
proof -
  consider "d = 0" | "d = 1" | "d = 2" | "d = 3" | "d = 4" | "d = 5" | "d = 6" | "d = 7"
    | "d = 8" | "d = 9" using assms by atomize_elim arith
  then have "is_digit (''0123456789'' ! d) \<and> digit_value (''0123456789'' ! d) = d"
    by cases (simp_all add: is_digit_def digit_value_def)
  then show "is_digit (''0123456789'' ! d)" "digit_value (''0123456789'' ! d) = d" by simp_all
qed

lemma is_digit_sign: "is_digit c \<Longrightarrow> c \<noteq> CHR ''-'' \<and> c \<noteq> CHR ''+''"
  by (auto simp: is_digit_def)

lemma show_nat_digits:
  "show_nat n \<noteq> [] \<and> (\<forall>c \<in> set (show_nat n). is_digit c) \<and>
   foldl (\<lambda>acc d. 10 * acc + digit_value d) 0 (show_nat n) = n"
proof (induction n rule: show_nat.induct)
  case (1 n)
  show ?case
  proof (cases "n < 10")
    case True
    then show ?thesis by (simp add: show_nat.simps[of n] digit_facts)
  next
    case False
    have m: "n mod 10 < 10" by simp
    from 1[OF False] False show ?thesis
      by (simp add: show_nat.simps[of n] digit_facts[OF m])
  qed
qed

lemma to_number_small: "n < 2 ^ 53 \<Longrightarrow> to_number False n = Number (int n)"
proof -
  assume "n < 2 ^ 53"
  moreover have "(2::nat) ^ 53 \<le> 2 ^ 1024" by (rule power_increasing) simp_all
  ultimately show ?thesis by (simp add: to_number_def nearest_double_def)
qed

text \<open>Parsing a decimal numeral below \<open>2^53\<close> gives its value.\<close>

lemma parseInt_show_nat:
  assumes "n < 2 ^ 53"
  shows "parseInt (show_nat n) = Number (int n)"
proof -
  obtain c cs where s: "show_nat n = c # cs" using show_nat_digits[of n] by (cases "show_nat n") auto
  have d: "\<forall>x \<in> set (c # cs). is_digit x" using show_nat_digits[of n] s by simp
  then have c: "strip white_space (c # cs) = c # cs" "c \<noteq> CHR ''-''" "c \<noteq> CHR ''+''"
    using is_digit_sign strip_digit by auto
  have tw: "takeWhile is_digit (c # cs) = c # cs" using d by (simp add: takeWhile_eq_all_conv)
  have v: "foldl (\<lambda>acc d. 10 * acc + digit_value d) 0 (c # cs) = n"
    using show_nat_digits[of n] s by simp
  show ?thesis
    unfolding parseInt_def s c(1) using c(2,3) tw v to_number_small[OF assms] by (simp add: Let_def)
qed

text \<open>Beyond \<open>2^53\<close> the value is rounded: \<open>2^53 + 1\<close> parses to \<open>2^53\<close>.\<close>

lemma bit_length_example: "bit_length 9007199254740993 = 54"
  by (simp add: bit_length.simps)

lemma parseInt_rounds: "parseInt ''9007199254740993'' = Number 9007199254740992"
proof -
  have "is_digit CHR ''9''" by (simp add: is_digit_def)
  then have "strip white_space ''9007199254740993'' = ''9007199254740993''" by (rule strip_digit)
  then show ?thesis
    by (simp add: parseInt_def is_digit_def digit_value_def Let_def to_number_def
        nearest_double_def bit_length_example)
qed

lemma exec_maxAge [simp]: "maxAge (exec c w) = maxAge w"
  by (cases c)
     (auto simp: addMessage_def updateMetadata_def delete_def clear_def push_def Let_def
           split: option.splits)

lemma run_maxAge [simp]: "maxAge (run cs w) = maxAge w"
  by (induction cs arbitrary: w) simp_all

lemma run_maxConversations [simp]: "maxConversations (run cs w) = maxConversations w"
  by (induction cs arbitrary: w) simp_all

text \<open>
  The thresholds of the store are the same in every environment and after every sequence of
  calls.
\<close>

lemma store_thresholds_fixed:
  "maxAge (run calls (snd (startup e))) = 24 * 60 * 60 * 1000 \<and>
   maxConversations (run calls (snd (startup e))) = 100"
  by (simp add: startup_def ConversationMemoryManager_def)

text \<open>
  Claim C3. The claim: the retention window and the capacity bound of the store are
  configuration read at process start, the capacity from \<open>MAX_CONVERSATIONS\<close> through the
  loaded configuration, and for every configured capacity the store the tools use enforces
  it. The capacity is read into the configuration, but the store is constructed without it
  and keeps its own constant: with \<open>MAX_CONVERSATIONS=1\<close> the loaded configuration holds
  capacity 1, while the store has the bound 100 and tracks two conversations after two
  \<open>create\<close> calls.
\<close>

theorem configured_capacity_is_not_enforced:
  "config_maxConversations (fst (startup [''MAX_CONVERSATIONS'' \<mapsto> ''1''])) = Number 1 \<and>
   size_store (run [Create None None (reads_at 1000 ''a''), Create None None (reads_at 2000 ''b'')]
      (snd (startup [''MAX_CONVERSATIONS'' \<mapsto> ''1'']))) = 2 \<and>
   maxConversations (snd (startup [''MAX_CONVERSATIONS'' \<mapsto> ''1''])) = 100"
  using configured_one two_creates_size by (simp add: startup_def ConversationMemoryManager_def)

end
